theory Spec2Isabelle
  imports Complex_Main "HOL-Library.Multiset" "HOL-Library.Log_Nat"
    "HOL-Library.Code_Target_Numeral"
begin

section \<open>Vector projector (lib/vector-utils, \<open>projectVectorsTo3D\<close>)\<close>

subsection \<open>JavaScript numbers\<close>

text \<open>
  A TypeScript \<open>number\<close> is an IEEE double. The finite values are modelled as reals
  (rounding and overflow of finite arithmetic are not modelled, and the two zeros are
  identified); the three special values are kept apart, because a division by a zero
  count produces them and every later operation propagates them.
\<close>

datatype number = Fin real | PosInf | NegInf | NaN

text \<open>\<open>a + b\<close> on numbers.\<close>

fun num_add :: "number \<Rightarrow> number \<Rightarrow> number" where
  "num_add NaN _ = NaN"
| "num_add _ NaN = NaN"
| "num_add PosInf NegInf = NaN"
| "num_add NegInf PosInf = NaN"
| "num_add PosInf _ = PosInf"
| "num_add _ PosInf = PosInf"
| "num_add NegInf _ = NegInf"
| "num_add _ NegInf = NegInf"
| "num_add (Fin a) (Fin b) = Fin (a + b)"

text \<open>
  \<open>a / b\<close> on numbers: \<open>0 / 0\<close> is \<open>NaN\<close>, a non-zero finite value over zero is an
  infinity of the numerator's sign (the divisors of the projector are counts, so a zero
  divisor is \<open>+0\<close>).
\<close>

fun num_div :: "number \<Rightarrow> number \<Rightarrow> number" where
  "num_div NaN _ = NaN"
| "num_div _ NaN = NaN"
| "num_div PosInf (Fin b) = (if 0 \<le> b then PosInf else NegInf)"
| "num_div NegInf (Fin b) = (if 0 \<le> b then NegInf else PosInf)"
| "num_div PosInf _ = NaN"
| "num_div NegInf _ = NaN"
| "num_div (Fin a) PosInf = Fin 0"
| "num_div (Fin a) NegInf = Fin 0"
| "num_div (Fin a) (Fin b) =
     (if b = 0 then (if a = 0 then NaN else if 0 < a then PosInf else NegInf)
      else Fin (a / b))"

text \<open>\<open>a * b\<close> on numbers: an infinity times zero is \<open>NaN\<close>.\<close>

fun num_mul :: "number \<Rightarrow> number \<Rightarrow> number" where
  "num_mul NaN _ = NaN"
| "num_mul _ NaN = NaN"
| "num_mul PosInf PosInf = PosInf"
| "num_mul PosInf NegInf = NegInf"
| "num_mul NegInf PosInf = NegInf"
| "num_mul NegInf NegInf = PosInf"
| "num_mul PosInf (Fin b) = (if b = 0 then NaN else if 0 < b then PosInf else NegInf)"
| "num_mul NegInf (Fin b) = (if b = 0 then NaN else if 0 < b then NegInf else PosInf)"
| "num_mul (Fin a) PosInf = (if a = 0 then NaN else if 0 < a then PosInf else NegInf)"
| "num_mul (Fin a) NegInf = (if a = 0 then NaN else if 0 < a then NegInf else PosInf)"
| "num_mul (Fin a) (Fin b) = Fin (a * b)"

text \<open>An array length or a count, read as a number.\<close>

definition num_of_nat :: "nat \<Rightarrow> number" where
  "num_of_nat n = Fin (real n)"

subsection \<open>Array operations used by the projector\<close>

text \<open>
  \<open>Array.prototype.slice(start, end)\<close> for non-negative integer arguments: both are
  clamped to the length, and the result is empty when \<open>end \<le> start\<close>.
  \<open>slice(start)\<close> runs to the end of the array.
\<close>

definition slice :: "'a list \<Rightarrow> nat \<Rightarrow> nat \<Rightarrow> 'a list" where
  "slice xs start end = take (end - start) (drop start xs)"

definition slice_from :: "'a list \<Rightarrow> nat \<Rightarrow> 'a list" where
  "slice_from xs start = drop start xs"

text \<open>\<open>xs.reduce((sum, val) => sum + val, 0)\<close>: left-to-right accumulation from \<open>0\<close>.\<close>

definition reduce_sum :: "number list \<Rightarrow> number" where
  "reduce_sum xs = foldl (\<lambda>sum val. num_add sum val) (Fin 0) xs"

subsection \<open>Data model (types/vector-data)\<close>

text \<open>\<open>id: string | number\<close>.\<close>

datatype ident = IdStr string | IdNum number

text \<open>The values a \<open>Record<string, any>\<close> of this program holds.\<close>

datatype jsvalue =
    JStr string
  | JNum number
  | JBool bool
  | JArr "jsvalue list"
  | JNull

record VectorItem =
  item_id :: ident
  key :: string
  vector :: "number list"
  metadata :: "(string \<times> jsvalue) list"
  clusters :: "string list"

text \<open>
  \<open>interface ProcessedVectorItem extends VectorItem\<close>; an optional property that is
  absent or \<open>undefined\<close> is \<open>None\<close>.
\<close>

record ProcessedVectorItem = VectorItem +
  position :: "number \<times> number \<times> number"
  primaryCluster :: "string option"
  clusterIndex :: "nat option"

subsection \<open>The projection\<close>

text \<open>
  Lines 10 to 16 of the projector: the number of dimensions each axis averages.
  \<open>Math.floor(dimensions / 3)\<close> on an array length is the integer quotient.
\<close>

definition axisDims :: "nat \<Rightarrow> nat \<times> nat \<times> nat" where
  "axisDims dimensions =
     (let dimPerAxis = dimensions div 3;
          remainder = dimensions mod 3;
          xDims = dimPerAxis + (if remainder > 0 then 1 else 0);
          yDims = dimPerAxis + (if remainder > 1 then 1 else 0);
          zDims = dimPerAxis
      in (xDims, yDims, zDims))"

text \<open>The three slices of lines 21, 24 and 27.\<close>

definition axisBlocks :: "'a list \<Rightarrow> 'a list \<times> 'a list \<times> 'a list" where
  "axisBlocks v =
     (case axisDims (length v) of (xDims, yDims, zDims) \<Rightarrow>
        (slice v 0 xDims, slice v xDims (xDims + yDims), slice_from v (xDims + yDims)))"

text \<open>Lines 19 to 28: the mean of each block, the sum divided by the axis count.\<close>

definition rawPosition :: "number list \<Rightarrow> number \<times> number \<times> number" where
  "rawPosition v =
     (case axisDims (length v) of (xDims, yDims, zDims) \<Rightarrow>
      (case axisBlocks v of (bx, by, bz) \<Rightarrow>
        (num_div (reduce_sum bx) (num_of_nat xDims),
         num_div (reduce_sum by) (num_of_nat yDims),
         num_div (reduce_sum bz) (num_of_nat zDims))))"

text \<open>Lines 31 and 32: every coordinate times the scale 5.\<close>

definition scale :: number where
  "scale = Fin 5"

definition scaledPosition :: "number \<times> number \<times> number \<Rightarrow> number \<times> number \<times> number" where
  "scaledPosition p =
     (case p of (p0, p1, p2) \<Rightarrow> (num_mul p0 scale, num_mul p1 scale, num_mul p2 scale))"

text \<open>\<open>item.clusters[0]\<close>: \<open>undefined\<close> on an empty array.\<close>

definition first_cluster :: "string list \<Rightarrow> string option" where
  "first_cluster cs = (case cs of [] \<Rightarrow> None | c # _ \<Rightarrow> Some c)"

text \<open>
  The callback of \<open>data.map\<close>: the spread copies the fields of the item, then
  \<open>position\<close> and \<open>primaryCluster\<close> are set. Nothing is written to the item, its
  vector or its cluster list: \<open>slice\<close>, \<open>reduce\<close> and the spread only read.
\<close>

definition projectItem :: "VectorItem \<Rightarrow> ProcessedVectorItem" where
  "projectItem item =
     \<lparr> item_id = item_id item,
       key = key item,
       vector = vector item,
       metadata = metadata item,
       clusters = clusters item,
       position = scaledPosition (rawPosition (vector item)),
       primaryCluster = first_cluster (clusters item),
       clusterIndex = None \<rparr>"

definition projectVectorsTo3D :: "VectorItem list \<Rightarrow> ProcessedVectorItem list" where
  "projectVectorsTo3D data = map projectItem data"

section \<open>Dataset generator (go-backend/main.go)\<close>

text \<open>
  The generator embedded here is \<open>generateVectorData\<close> of the Go backend, the one the
  application fetches its data from. The TypeScript mock service repeats it with
  \<open>Array.prototype.sort\<close> under a random comparator as its shuffle; the order such a
  sort produces is left to the JavaScript engine, so the mock is not embedded.
\<close>

subsection \<open>Run-time failures\<close>

text \<open>
  The run-time panics the Go code can raise, and the fatal out-of-memory error of the
  allocator; each of them ends the call.
\<close>

datatype panic =
    IntnInvalidArgument
  | MakeSliceLenOutOfRange
  | MakeSliceCapOutOfRange
  | OutOfMemory
  | IndexOutOfRange
  | SliceBoundsOutOfRange
  | InterfaceConversion

definition and_then :: "panic + 'a \<Rightarrow> ('a \<Rightarrow> panic + 'b) \<Rightarrow> panic + 'b" where
  "and_then m f = (case m of Inl e \<Rightarrow> Inl e | Inr x \<Rightarrow> f x)"

subsection \<open>Allocation of slices\<close>

text \<open>
  \<open>make\<close> with a size that depends on an argument of the generator goes through the
  runtime's \<open>makeslice\<close>. It panics when the length or the capacity is negative, or
  when the byte size of the slice overflows the 64-bit \<open>uintptr\<close> or exceeds the
  runtime constant \<open>maxAlloc\<close>: \<open>len out of range\<close> when the length alone is already
  at fault, \<open>cap out of range\<close> otherwise. Within these limits the allocator either
  provides the block or stops the program with its fatal out-of-memory error; a block
  of no bytes is always provided.

  The machine is a parameter: \<open>maxAlloc\<close> (2^48 on linux/amd64) and, for every byte
  size, whether the allocator provides the blocks of that size that are requested during
  the call. The element sizes are those of a 64-bit platform: 8 bytes for a \<open>float64\<close>
  and 88 bytes for a \<open>VectorItem\<close> (two strings of 16 bytes, two slices of 24 bytes
  and a map of 8 bytes). Allocations of a fixed, small size are taken to succeed.
\<close>

record machine =
  maxAlloc :: nat
  provides :: "nat \<Rightarrow> bool"

definition sizeof_float64 :: nat where
  "sizeof_float64 = 8"

definition sizeof_VectorItem :: nat where
  "sizeof_VectorItem = 88"

definition out_of_range :: "machine \<Rightarrow> nat \<Rightarrow> int \<Rightarrow> bool" where
  "out_of_range m elemsize n = (n < 0 \<or> elemsize * nat n \<ge> 2 ^ 64 \<or> elemsize * nat n > maxAlloc m)"

definition makeslice :: "machine \<Rightarrow> nat \<Rightarrow> int \<Rightarrow> int \<Rightarrow> panic + unit" where
  "makeslice m elemsize len cap =
     (if out_of_range m elemsize cap \<or> len < 0 \<or> len > cap then
        (if out_of_range m elemsize len then Inl MakeSliceLenOutOfRange
         else Inl MakeSliceCapOutOfRange)
      else if elemsize * nat cap = 0 \<or> provides m (elemsize * nat cap) then Inr ()
      else Inl OutOfMemory)"

subsection \<open>Arithmetic on \<open>float64\<close>\<close>

text \<open>
  A \<open>float64\<close> of the generator is the real number it denotes, and every arithmetic
  operation of the source is the exact operation followed by the rounding to the nearest
  \<open>float64\<close>, ties to the even significand. \<open>exponent x\<close> is the binary exponent
  \<open>\<lfloor>log\<^sub>2 |x|\<rfloor>\<close> of a non-zero \<open>x\<close>; the unit in the last place is
  \<open>2 ^ (e - 52)\<close>, with the exponent \<open>e\<close> not below -1022 (subnormal numbers).
  The generator's values stay far below \<open>2 ^ 1024\<close>, so the overflow to an infinity is
  not modelled. The operations are rounded one by one, as the compiler emits them on
  amd64; where a platform fuses a multiplication with the following addition, the vector
  components are the same, their multiplications by 2 and by 0.5 being exact.
\<close>

definition pow2 :: "int \<Rightarrow> real" where
  "pow2 p = (if 0 \<le> p then 2 ^ nat p else 1 / 2 ^ nat (- p))"

definition exponent :: "real \<Rightarrow> int" where
  "exponent x =
     (if 1 \<le> \<bar>x\<bar> then bitlen \<lfloor>\<bar>x\<bar>\<rfloor> - 1 else - bitlen (\<lceil>1 / \<bar>x\<bar>\<rceil> - 1))"

definition round_even :: "real \<Rightarrow> int" where
  "round_even y =
     (let n = \<lfloor>y\<rfloor>; d = y - of_int n
      in if d < 1 / 2 then n
         else if 1 / 2 < d then n + 1
         else if even n then n else n + 1)"

definition float64 :: "real \<Rightarrow> real" where
  "float64 x =
     (if x = 0 then 0
      else (let e = max (exponent x) (- 1022); ulp = pow2 (e - 52)
            in ulp * of_int (round_even (x / ulp))))"

subsection \<open>The random source\<close>

text \<open>
  The global generator of \<open>math/rand\<close> is an explicit state: an arbitrary sequence
  \<open>draws\<close>, whose entry \<open>k\<close> determines the outcome of call number \<open>k\<close> of the
  package, and the number of calls made so far. \<open>Intn(n)\<close> panics for \<open>n \<le> 0\<close> and
  otherwise returns a value of \<open>[0, n)\<close>, every one of which is possible.
  \<open>Float64()\<close> returns \<open>float64(Int63()) / 2^63\<close>, drawn again while that is 1: its
  values are exactly the numbers \<open>m / 2 ^ (53 + e)\<close> with \<open>m < 2 ^ 53\<close> and
  \<open>e \<le> 10\<close>, and the entry of the sequence is decoded into \<open>m\<close> and \<open>e\<close>.
\<close>

record rng =
  draws :: "nat \<Rightarrow> nat"
  consumed :: nat

definition next_draw :: "rng \<Rightarrow> nat \<times> rng" where
  "next_draw r = (draws r (consumed r), r\<lparr>consumed := Suc (consumed r)\<rparr>)"

definition Intn :: "int \<Rightarrow> rng \<Rightarrow> panic + (int \<times> rng)" where
  "Intn n r =
     (if n \<le> 0 then Inl IntnInvalidArgument
      else (case next_draw r of (x, r') \<Rightarrow> Inr (int x mod n, r')))"

definition Float64 :: "rng \<Rightarrow> real \<times> rng" where
  "Float64 r =
     (case next_draw r of (x, r') \<Rightarrow>
        (real (x mod 2 ^ 53) / 2 ^ (53 + (x div 2 ^ 53) mod 11), r'))"

subsection \<open>Sample data\<close>

definition sampleClusters :: "string list" where
  "sampleClusters =
     [''Group A'', ''Group B'', ''Group C'', ''Group D'', ''Group E'',
      ''Group F'', ''Group G'', ''Group H'', ''Group I'', ''Group J'']"

definition sampleNames :: "string list" where
  "sampleNames =
     [''Alpha'', ''Beta'', ''Gamma'', ''Delta'', ''Epsilon'', ''Zeta'', ''Eta'', ''Theta'',
      ''Iota'', ''Kappa'', ''Lambda'', ''Mu'', ''Nu'', ''Xi'', ''Omicron'', ''Pi'', ''Rho'',
      ''Sigma'', ''Tau'', ''Upsilon'', ''Phi'', ''Chi'', ''Psi'', ''Omega'']"

definition sampleAttributes :: "string list" where
  "sampleAttributes =
     [''Small'', ''Medium'', ''Large'', ''Extra Large'', ''Compact'', ''Expanded'', ''Basic'',
      ''Advanced'', ''Premium'', ''Standard'', ''Custom'', ''Regular'', ''Special'',
      ''Limited'', ''Unlimited'']"

definition sampleCategories :: "string list" where
  "sampleCategories =
     [''Primary'', ''Secondary'', ''Tertiary'', ''Quaternary'', ''Quinary'', ''Senary'',
      ''Septenary'', ''Octonary'', ''Nonary'', ''Denary'']"

definition sampleTypes :: "string list" where
  "sampleTypes =
     [''Type A'', ''Type B'', ''Type C'', ''Type D'', ''Type E'', ''Type F'', ''Type G'',
      ''Type H'', ''Type I'', ''Type J'']"

definition sampleRatings :: "int list" where
  "sampleRatings = [1, 2, 3, 4, 5]"

definition sampleStatuses :: "string list" where
  "sampleStatuses = [''Active'', ''Inactive'', ''Pending'', ''Archived'', ''Draft'']"

definition samplePriorities :: "string list" where
  "samplePriorities = [''Low'', ''Medium'', ''High'', ''Critical'']"

definition sampleRegions :: "string list" where
  "sampleRegions = [''North'', ''South'', ''East'', ''West'', ''Central'']"

definition sampleDepartments :: "string list" where
  "sampleDepartments = [''Sales'', ''Marketing'', ''Engineering'', ''Support'', ''Finance'', ''HR'']"

subsection \<open>Values of type \<open>interface{}\<close> and the item struct\<close>

datatype goval =
    GoString string
  | GoInt int
  | GoFloat real
  | GoBool bool
  | GoStrings "string list"
  | GoInts "int list"
  | GoNil

text \<open>The type assertions \<open>x.(string)\<close> and \<open>x.(int)\<close>.\<close>

definition assert_string :: "goval \<Rightarrow> panic + string" where
  "assert_string v = (case v of GoString s \<Rightarrow> Inr s | _ \<Rightarrow> Inl InterfaceConversion)"

definition assert_int :: "goval \<Rightarrow> panic + int" where
  "assert_int v = (case v of GoInt k \<Rightarrow> Inr k | _ \<Rightarrow> Inl InterfaceConversion)"

record VectorItemGo =
  ID :: string
  Key :: string
  Vector :: "real list"
  Metadata :: "(string \<times> goval) list"
  Clusters :: "string list"

subsection \<open>Helper functions\<close>

text \<open>\<open>v[k]\<close> on a slice: a panic out of range.\<close>

definition index :: "'a list \<Rightarrow> int \<Rightarrow> panic + 'a" where
  "index v k = (if 0 \<le> k \<and> k < int (length v) then Inr (v ! nat k) else Inl IndexOutOfRange)"

definition getRandomItem :: "goval \<Rightarrow> rng \<Rightarrow> panic + (goval \<times> rng)" where
  "getRandomItem items r =
     (case items of
        GoStrings v \<Rightarrow>
          and_then (Intn (int (length v)) r) (\<lambda>(k, r').
          and_then (index v k) (\<lambda>x. Inr (GoString x, r')))
      | GoInts v \<Rightarrow>
          and_then (Intn (int (length v)) r) (\<lambda>(k, r').
          and_then (index v k) (\<lambda>x. Inr (GoInt x, r')))
      | _ \<Rightarrow> Inr (GoNil, r))"

text \<open>
  The Fisher-Yates loop \<open>for i := len(shuffled) - 1; i > 0; i--\<close>; the two elements are
  exchanged by a simultaneous assignment.
\<close>

fun fisher_yates :: "nat \<Rightarrow> string list \<Rightarrow> rng \<Rightarrow> panic + (string list \<times> rng)" where
  "fisher_yates 0 shuffled r = Inr (shuffled, r)"
| "fisher_yates (Suc i) shuffled r =
     (case Intn (int (Suc i) + 1) r of
        Inl e \<Rightarrow> Inl e
      | Inr (j, r') \<Rightarrow>
          (case index shuffled (int (Suc i)) of
             Inl e \<Rightarrow> Inl e
           | Inr a \<Rightarrow>
               (case index shuffled j of
                  Inl e \<Rightarrow> Inl e
                | Inr b \<Rightarrow> fisher_yates i (shuffled[Suc i := b, nat j := a]) r')))"

text \<open>
  \<open>getRandomItems\<close>: \<open>make([]string, 0, numItems)\<close> panics on a negative capacity, and
  \<open>shuffled[:numItems]\<close> panics when \<open>numItems\<close> exceeds the length. The loop starts at
  \<open>len(shuffled) - 1\<close> and does not run for an empty slice.
\<close>

definition getRandomItems :: "string list \<Rightarrow> int \<Rightarrow> int \<Rightarrow> rng \<Rightarrow> panic + (string list \<times> rng)" where
  "getRandomItems items minItems maxItems r =
     and_then (Intn (maxItems - minItems + 1) r) (\<lambda>(k, r1).
       let numItems = k + minItems in
       if numItems < 0 then Inl MakeSliceCapOutOfRange
       else
         and_then (fisher_yates (length items - 1) items r1) (\<lambda>(shuffled, r2).
           if numItems > int (length shuffled) then Inl SliceBoundsOutOfRange
           else Inr (take (nat numItems) shuffled, r2)))"

definition chars :: string where
  "chars = ''ABCDEFGHIJKLMNOPQRSTUVWXYZabcdefghijklmnopqrstuvwxyz0123456789''"

fun key_chars :: "nat \<Rightarrow> rng \<Rightarrow> panic + (string \<times> rng)" where
  "key_chars 0 r = Inr ([], r)"
| "key_chars (Suc n) r =
     (case Intn (int (length chars)) r of
        Inl e \<Rightarrow> Inl e
      | Inr (k, r') \<Rightarrow>
          (case index chars k of
             Inl e \<Rightarrow> Inl e
           | Inr c \<Rightarrow>
               (case key_chars n r' of
                  Inl e \<Rightarrow> Inl e
                | Inr (cs, r'') \<Rightarrow> Inr (c # cs, r''))))"

definition generateRandomKey :: "int \<Rightarrow> rng \<Rightarrow> panic + (string \<times> rng)" where
  "generateRandomKey len r =
     (if len < 0 then Inl MakeSliceLenOutOfRange else key_chars (nat len) r)"

text \<open>
  \<open>getRandomNumber\<close>: the loop multiplies the factor by 10 \<open>decimals\<close> times (not at
  all for \<open>decimals \<le> 0\<close>), and the conversion \<open>int(x)\<close> truncates towards zero.
\<close>

definition trunc :: "real \<Rightarrow> int" where
  "trunc x = (if 0 \<le> x then \<lfloor>x\<rfloor> else \<lceil>x\<rceil>)"

fun factor_loop :: "nat \<Rightarrow> real \<Rightarrow> real" where
  "factor_loop 0 factor = factor"
| "factor_loop (Suc n) factor = factor_loop n (float64 (factor * 10))"

definition getRandomNumber :: "real \<Rightarrow> real \<Rightarrow> int \<Rightarrow> rng \<Rightarrow> real \<times> rng" where
  "getRandomNumber min_v max_v decimals r =
     (case Float64 r of (x, r') \<Rightarrow>
        (let v = float64 (min_v + float64 (x * float64 (max_v - min_v)));
             factor = factor_loop (nat decimals) 1
         in (float64 (float64 (real_of_int (trunc (float64 (v * factor)))) / factor), r')))"

text \<open>\<open>strconv.Itoa\<close>: the decimal text of an integer.\<close>

fun digits :: "nat \<Rightarrow> string" where
  "digits n =
     (if n < 10 then [char_of (48 + n)]
      else digits (n div 10) @ [char_of (48 + n mod 10)])"

declare digits.simps [simp del]

definition Itoa :: "int \<Rightarrow> string" where
  "Itoa i = (if i < 0 then CHR ''-'' # digits (nat (- i)) else digits (nat i))"

subsection \<open>\<open>generateVectorData\<close>\<close>

text \<open>
  The inner loop of the cluster centers, \<open>for j := range clusterCenters[i]\<close>: every
  component is \<open>rand.Float64()*2 - 1\<close>.
\<close>

function fill_center :: "nat \<Rightarrow> real list \<Rightarrow> rng \<Rightarrow> real list \<times> rng" where
  "fill_center j c r =
     (if j < length c then
        (case Float64 r of (x, r') \<Rightarrow>
           fill_center (Suc j) (c[j := float64 (float64 (x * 2) - 1)]) r')
      else (c, r))"
  by pat_completeness auto
termination
  by (relation "measure (\<lambda>(j, c, r). length c - j)") (auto simp: Float64_def next_draw_def)

declare fill_center.simps [simp del]

text \<open>
  The outer loop, \<open>for i := range clusterCenters\<close>, with its
  \<open>make([]float64, dimensions)\<close>.
\<close>

function make_centers :: "machine \<Rightarrow> nat \<Rightarrow> int \<Rightarrow> real list list \<Rightarrow> rng
    \<Rightarrow> panic + (real list list \<times> rng)" where
  "make_centers m i dimensions clusterCenters r =
     (if i < length clusterCenters then
        (case makeslice m sizeof_float64 dimensions dimensions of
           Inl e \<Rightarrow> Inl e
         | Inr _ \<Rightarrow>
             (case fill_center 0 (replicate (nat dimensions) 0) r of
                (c, r') \<Rightarrow> make_centers m (Suc i) dimensions (clusterCenters[i := c]) r'))
      else Inr (clusterCenters, r))"
  by pat_completeness auto
termination
  by (relation "measure (\<lambda>(m, i, d, cc, r). length cc - i)") auto

declare make_centers.simps [simp del]

text \<open>
  The search for the primary cluster: the first index of \<open>sampleClusters\<close> whose name
  equals \<open>clusters[0]\<close>, and \<open>-1\<close> when there is none. \<open>clusters[0]\<close> is read at every
  comparison and panics on an empty slice (\<open>cs\<close> is the slice \<open>clusters\<close>).
\<close>

fun find_primary :: "int \<Rightarrow> string list \<Rightarrow> string list \<Rightarrow> panic + int" where
  "find_primary idx [] cs = Inr (- 1)"
| "find_primary idx (cluster # rest) cs =
     (case index cs 0 of
        Inl e \<Rightarrow> Inl e
      | Inr c0 \<Rightarrow> if cluster = c0 then Inr idx else find_primary (idx + 1) rest cs)"

text \<open>
  The loop \<open>for j := range center\<close> that writes \<open>vector[j]\<close>: the right-hand side is
  evaluated first, then the assignment panics when \<open>j\<close> is outside \<open>vector\<close>.
\<close>

function fill_vector :: "nat \<Rightarrow> real list \<Rightarrow> real list \<Rightarrow> rng \<Rightarrow> panic + (real list \<times> rng)" where
  "fill_vector j center vec r =
     (if j < length center then
        (case Float64 r of (x, r') \<Rightarrow>
           if j < length vec
           then fill_vector (Suc j) center
                  (vec[j := float64 (center ! j + float64 (float64 (x * 0.5) - 0.25))]) r'
           else Inl IndexOutOfRange)
      else Inr (vec, r))"
  by pat_completeness auto
termination
  by (relation "measure (\<lambda>(j, c, v, r). length c - j)") auto

declare fill_vector.simps [simp del]

text \<open>
  The metadata literal; its calls are evaluated from left to right. \<open>now\<close> is the
  reading of \<open>time.Now()\<close> in hours and \<open>created\<close> is kept as that instant minus the
  drawn number of days (its RFC 3339 text is not modelled).
\<close>

definition make_metadata :: "int \<Rightarrow> rng \<Rightarrow> panic + ((string \<times> goval) list \<times> rng)" where
  "make_metadata now r0 =
     and_then (getRandomItem (GoStrings sampleAttributes) r0) (\<lambda>(a, r1).
     and_then (assert_string a) (\<lambda>attr.
     and_then (getRandomItem (GoStrings sampleNames) r1) (\<lambda>(b, r2).
     and_then (assert_string b) (\<lambda>name.
     and_then (getRandomItem (GoStrings sampleTypes) r2) (\<lambda>(c, r3).
     and_then (assert_string c) (\<lambda>ty.
     and_then (getRandomItem (GoStrings sampleCategories) r3) (\<lambda>(d, r4).
     and_then (assert_string d) (\<lambda>category.
     and_then (getRandomItem (GoInts sampleRatings) r4) (\<lambda>(e, r5).
     and_then (assert_int e) (\<lambda>rating.
     (case getRandomNumber 10 1000 2 r5 of (val, r6) \<Rightarrow>
     and_then (getRandomItem (GoStrings sampleStatuses) r6) (\<lambda>(f, r7).
     and_then (assert_string f) (\<lambda>status.
     and_then (getRandomItem (GoStrings samplePriorities) r7) (\<lambda>(g, r8).
     and_then (assert_string g) (\<lambda>priority.
     and_then (getRandomItem (GoStrings sampleRegions) r8) (\<lambda>(h, r9).
     and_then (assert_string h) (\<lambda>region.
     and_then (getRandomItem (GoStrings sampleDepartments) r9) (\<lambda>(k, r10).
     and_then (assert_string k) (\<lambda>department.
     and_then (Intn 365 r10) (\<lambda>(days, r11).
     (case Float64 r11 of (p, r12) \<Rightarrow>
     and_then (Intn 100 r12) (\<lambda>(s, r13).
     and_then (getRandomItems sampleAttributes 0 5 r13) (\<lambda>(tags, r14).
       Inr ([(''name'', GoString (attr @ '' '' @ name)),
             (''type'', GoString ty),
             (''category'', GoString category),
             (''rating'', GoInt rating),
             (''value'', GoFloat val),
             (''status'', GoString status),
             (''priority'', GoString priority),
             (''region'', GoString region),
             (''department'', GoString department),
             (''created'', GoInt (now - days * 24)),
             (''isActive'', GoBool (p > float64 0.2)),
             (''score'', GoInt (s + 1)),
             (''tags'', GoStrings tags)], r14))))))))))))))))))))))))"

text \<open>One iteration of the loop over the points, lines 142 to 186.\<close>

definition make_item :: "machine \<Rightarrow> int \<Rightarrow> int \<Rightarrow> (int \<Rightarrow> int) \<Rightarrow> real list list \<Rightarrow> rng
    \<Rightarrow> panic + (VectorItemGo \<times> rng)" where
  "make_item m i dimensions clock clusterCenters r0 =
     and_then (getRandomItems sampleClusters 1 3 r0) (\<lambda>(clusters, r1).
     and_then (find_primary 0 sampleClusters clusters) (\<lambda>primaryClusterIdx.
     and_then (index clusterCenters primaryClusterIdx) (\<lambda>center.
     and_then (makeslice m sizeof_float64 dimensions dimensions) (\<lambda>_.
     and_then (fill_vector 0 center (replicate (nat dimensions) 0) r1) (\<lambda>(vec, r2).
     and_then (make_metadata (clock i) r2) (\<lambda>(metadata, r3).
     and_then (generateRandomKey 8 r3) (\<lambda>(k, r4).
       Inr (\<lparr> ID = Itoa i, Key = k, Vector = vec, Metadata = metadata,
               Clusters = clusters \<rparr>, r4))))))))"

text \<open>The loop \<open>for i := 0; i < limit; i++\<close> with its \<open>append\<close>.\<close>

function points_loop :: "machine \<Rightarrow> int \<Rightarrow> int \<Rightarrow> int \<Rightarrow> (int \<Rightarrow> int) \<Rightarrow> real list list
    \<Rightarrow> VectorItemGo list \<Rightarrow> rng \<Rightarrow> panic + (VectorItemGo list \<times> rng)" where
  "points_loop m i limit dimensions clock clusterCenters data r =
     (if i < limit then
        (case make_item m i dimensions clock clusterCenters r of
           Inl e \<Rightarrow> Inl e
         | Inr (item, r') \<Rightarrow>
             points_loop m (i + 1) limit dimensions clock clusterCenters (data @ [item]) r')
      else Inr (data, r))"
  by pat_completeness auto
termination
  by (relation "measure (\<lambda>(m, i, limit, d, clock, cc, data, r). nat (limit - i))") auto

declare points_loop.simps [simp del]

text \<open>
  \<open>generateVectorData\<close>: the centers first, then \<open>make([]VectorItem, 0, limit)\<close>, then
  the points.
\<close>

definition generateVectorData :: "machine \<Rightarrow> int \<Rightarrow> int \<Rightarrow> (int \<Rightarrow> int) \<Rightarrow> rng
    \<Rightarrow> panic + (VectorItemGo list \<times> rng)" where
  "generateVectorData m limit dimensions clock r0 =
     and_then (make_centers m 0 dimensions (replicate (length sampleClusters) []) r0)
       (\<lambda>(clusterCenters, r1).
          and_then (makeslice m sizeof_VectorItem 0 limit) (\<lambda>_.
            points_loop m 0 limit dimensions clock clusterCenters [] r1))"

section \<open>HTTP handler (go-backend/main.go, \<open>handleVectorData\<close>)\<close>

text \<open>
  \<open>strconv.Atoi\<close> on a 64-bit platform: an optional sign, then one or more decimal
  digits; anything else is a syntax error with value 0, and a value outside the range
  of \<open>int\<close> is a range error with the nearest bound.
\<close>

datatype num_error = ErrSyntax | ErrRange

definition is_digit :: "char \<Rightarrow> bool" where
  "is_digit c = (48 \<le> (of_char c :: nat) \<and> (of_char c :: nat) \<le> 57)"

definition digits_value :: "string \<Rightarrow> nat" where
  "digits_value ds = foldl (\<lambda>n c. n * 10 + ((of_char c :: nat) - 48)) 0 ds"

definition Atoi :: "string \<Rightarrow> int \<times> num_error option" where
  "Atoi s =
     (let neg = (case s of [] \<Rightarrow> False | c # _ \<Rightarrow> c = CHR ''-'');
          ds = (case s of [] \<Rightarrow> [] | c # cs \<Rightarrow> if c = CHR ''-'' \<or> c = CHR ''+'' then cs else s)
      in if ds = [] \<or> \<not> list_all is_digit ds then (0, Some ErrSyntax)
         else
           (let n = int (digits_value ds)
            in if neg then (if n > 2 ^ 63 then (- (2 ^ 63), Some ErrRange) else (- n, None))
               else (if n \<ge> 2 ^ 63 then (2 ^ 63 - 1, Some ErrRange) else (n, None))))"

text \<open>
  Lines 212 to 229: the two query values (\<open>Get\<close> returns the empty string for an
  absent parameter), each replaced by its default unless it parses to a positive integer.
\<close>

definition parse_params :: "string \<Rightarrow> string \<Rightarrow> int \<times> int" where
  "parse_params limitStr dimensionsStr =
     (let limit =
            (if limitStr \<noteq> [] then
               (case Atoi limitStr of (parsedLimit, err) \<Rightarrow>
                  if err = None \<and> parsedLimit > 0 then parsedLimit else 500)
             else 500);
          dimensions =
            (if dimensionsStr \<noteq> [] then
               (case Atoi dimensionsStr of (parsedDimensions, err) \<Rightarrow>
                  if err = None \<and> parsedDimensions > 0 then parsedDimensions else 100)
             else 100)
      in (limit, dimensions))"

record request =
  Method :: string
  Query :: "(string \<times> string) list"

text \<open>\<open>r.URL.Query().Get(name)\<close>: the first value of the parameter, or the empty string.\<close>

definition query_get :: "(string \<times> string) list \<Rightarrow> string \<Rightarrow> string" where
  "query_get q name = (case map_of q name of None \<Rightarrow> [] | Some v \<Rightarrow> v)"

datatype body = NoBody | TextBody string | JsonBody "VectorItemGo list" int

record response =
  status :: nat
  headers :: "(string \<times> string) list"
  content :: body

definition cors_headers :: "(string \<times> string) list" where
  "cors_headers =
     [(''Access-Control-Allow-Origin'', ''*''),
      (''Access-Control-Allow-Methods'', ''GET, OPTIONS''),
      (''Access-Control-Allow-Headers'', ''Content-Type'')]"

text \<open>
  The handler. A failure of the generator is not caught by the handler itself; it is the
  \<open>Inl\<close> result.
\<close>

definition handleVectorData :: "machine \<Rightarrow> request \<Rightarrow> (int \<Rightarrow> int) \<Rightarrow> rng
    \<Rightarrow> panic + (response \<times> rng)" where
  "handleVectorData m req clock r =
     (if Method req = ''OPTIONS'' then
        Inr (\<lparr> status = 200, headers = cors_headers, content = NoBody \<rparr>, r)
      else if Method req \<noteq> ''GET'' then
        Inr (\<lparr> status = 405,
                headers = cors_headers @
                  [(''Content-Type'', ''text/plain; charset=utf-8''),
                   (''X-Content-Type-Options'', ''nosniff'')],
                content = TextBody (''Method not allowed'' @ [CHR 0x0A]) \<rparr>, r)
      else
        (case parse_params (query_get (Query req) ''limit'') (query_get (Query req) ''dimensions'') of
           (limit, dimensions) \<Rightarrow>
             and_then (generateVectorData m limit dimensions clock r) (\<lambda>(data, r').
               Inr (\<lparr> status = 200,
                       headers = cors_headers @ [(''Content-Type'', ''application/json'')],
                       content = JsonBody data (int (length data)) \<rparr>, r'))))"

section \<open>Properties of the projector\<close>

lemma axisDims_sum:
  "axisDims n = (x, y, z) \<Longrightarrow> x + y + z = n"
  by (auto simp: axisDims_def Let_def split: if_splits) presburger+

lemma slice_nth:
  "a \<le> b \<Longrightarrow> b \<le> length v \<Longrightarrow> slice v a b = map ((!) v) [a..<b]"
  by (rule nth_equalityI) (auto simp: slice_def)

lemma slice_from_nth:
  "a \<le> length v \<Longrightarrow> slice_from v a = map ((!) v) [a..<length v]"
  by (rule nth_equalityI) (auto simp: slice_from_def)

text \<open>
  Claim C1. For a vector of length \<open>n \<ge> 1\<close> the axis counts are
  \<open>xLen = n div 3 + (1 if n mod 3 > 0)\<close>, \<open>yLen = n div 3 + (1 if n mod 3 > 1)\<close> and
  \<open>zLen = n div 3\<close>; the three blocks the projector averages are the index ranges
  \<open>[0, xLen)\<close>, \<open>[xLen, xLen + yLen)\<close> and \<open>[xLen + yLen, n)\<close> of the vector, and
  the length \<open>n - xLen - yLen\<close> of the third is \<open>zLen\<close>. Lengths 9, 10 and 11 give
  the counts (3,3,3), (4,3,3) and (4,4,3).
\<close>

theorem projector_partition:
  "1 \<le> length v \<Longrightarrow>
   (case axisDims (length v) of (xLen, yLen, zLen) \<Rightarrow>
      xLen = length v div 3 + (if length v mod 3 > 0 then 1 else 0) \<and>
      yLen = length v div 3 + (if length v mod 3 > 1 then 1 else 0) \<and>
      zLen = length v div 3 \<and>
      xLen + yLen \<le> length v \<and>
      length v - xLen - yLen = zLen \<and>
      axisBlocks v =
        (map ((!) v) [0..<xLen],
         map ((!) v) [xLen..<xLen + yLen],
         map ((!) v) [xLen + yLen..<length v])) \<and>
   axisDims 9 = (3, 3, 3) \<and> axisDims 10 = (4, 3, 3) \<and> axisDims 11 = (4, 4, 3)"
proof -
  obtain x y z where d: "axisDims (length v) = (x, y, z)"
    by (cases "axisDims (length v)") auto
  from axisDims_sum [OF d] have s: "x + y + z = length v" .
  have x: "x = length v div 3 + (if length v mod 3 > 0 then 1 else 0)"
    and y: "y = length v div 3 + (if length v mod 3 > 1 then 1 else 0)"
    and z: "z = length v div 3"
    using d by (simp_all add: axisDims_def Let_def)
  have b: "axisBlocks v =
        (map ((!) v) [0..<x], map ((!) v) [x..<x + y], map ((!) v) [x + y..<length v])"
    using s by (simp add: axisBlocks_def d slice_nth slice_from_nth)
  have c: "axisDims 9 = (3, 3, 3) \<and> axisDims 10 = (4, 3, 3) \<and> axisDims 11 = (4, 4, 3)"
    by (simp add: axisDims_def Let_def)
  from s have "x + y \<le> length v" "length v - x - y = z" by arith+
  with x y z b c show ?thesis
    unfolding d by simp
qed

theorem projector_partition_witness:
  "(1::nat) \<le> length [Fin 1, Fin 2, Fin 3, Fin 4] \<and>
   axisDims (length [Fin 1, Fin 2, Fin 3, Fin 4]) = (2, 1, 1) \<and>
   axisBlocks [Fin 1, Fin 2, Fin 3, Fin 4] = ([Fin 1, Fin 2], [Fin 3], [Fin 4])"
  using projector_partition [of "[Fin 1, Fin 2, Fin 3, Fin 4]"]
  by (simp add: axisDims_def Let_def upt_rec)

lemma rawPosition_nine:
  "rawPosition [Fin 0, Fin 0, Fin 0, Fin 3, Fin 3, Fin 3, Fin 6, Fin 6, Fin 6] = (Fin 0, Fin 3, Fin 6)"
  by (simp add: rawPosition_def axisBlocks_def axisDims_def Let_def slice_def slice_from_def
      reduce_sum_def num_of_nat_def)

lemma position_projectVectorsTo3D:
  "map position (projectVectorsTo3D data) =
   map (\<lambda>item. scaledPosition (rawPosition (vector item))) data"
  by (simp add: projectVectorsTo3D_def projectItem_def)

text \<open>
  Claim C2, as stated, fails: the blocks of \<open>[0,0,0,3,3,3,6,6,6]\<close> are \<open>[0,0,0]\<close>,
  \<open>[3,3,3]\<close> and \<open>[6,6,6]\<close>, so the means are not (1,4,7) and the position is not
  (5,20,35).
\<close>

theorem projector_nine_counterexample:
  "rawPosition [Fin 0, Fin 0, Fin 0, Fin 3, Fin 3, Fin 3, Fin 6, Fin 6, Fin 6]
     \<noteq> (Fin 1, Fin 4, Fin 7) \<and>
   map position (projectVectorsTo3D
     [\<lparr> item_id = IdNum (Fin 0), key = ''a1B2c3D4'',
        vector = [Fin 0, Fin 0, Fin 0, Fin 3, Fin 3, Fin 3, Fin 6, Fin 6, Fin 6],
        metadata = [], clusters = [''Group A''] \<rparr>]) \<noteq> [(Fin 5, Fin 20, Fin 35)]"
  by (simp add: rawPosition_nine position_projectVectorsTo3D scaledPosition_def scale_def)

text \<open>
  Claim C2, amended. Projecting the single item whose vector is \<open>[0,0,0,3,3,3,6,6,6]\<close>
  yields the block means (0,3,6) before scaling and the position (0,15,30) after the
  multiplication by the scale 5.
\<close>

theorem projector_nine:
  "vector item = [Fin 0, Fin 0, Fin 0, Fin 3, Fin 3, Fin 3, Fin 6, Fin 6, Fin 6] \<Longrightarrow>
   rawPosition (vector item) = (Fin 0, Fin 3, Fin 6) \<and>
   map position (projectVectorsTo3D [item]) = [(Fin 0, Fin 15, Fin 30)]"
  by (simp add: rawPosition_nine position_projectVectorsTo3D scaledPosition_def scale_def)

theorem projector_nine_witness:
  "map position (projectVectorsTo3D
     [\<lparr> item_id = IdNum (Fin 0), key = ''a1B2c3D4'',
        vector = [Fin 0, Fin 0, Fin 0, Fin 3, Fin 3, Fin 3, Fin 6, Fin 6, Fin 6],
        metadata = [], clusters = [''Group A''] \<rparr>]) = [(Fin 0, Fin 15, Fin 30)]"
  using projector_nine [of "\<lparr> item_id = IdNum (Fin 0), key = ''a1B2c3D4'',
        vector = [Fin 0, Fin 0, Fin 0, Fin 3, Fin 3, Fin 3, Fin 6, Fin 6, Fin 6],
        metadata = [], clusters = [''Group A''] \<rparr>"]
  by simp

lemma reduce_sum_Nil: "reduce_sum [] = Fin 0"
  by (simp add: reduce_sum_def)

lemma rawPosition_short:
  assumes "length v < 3"
  shows "snd (snd (rawPosition v)) = NaN"
proof -
  from assms have "length v div 3 = 0" by simp
  with assms show ?thesis
    by (auto simp: rawPosition_def axisBlocks_def slice_from_def reduce_sum_Nil num_of_nat_def
        axisDims_def Let_def split: if_splits)
qed

text \<open>
  Claim C3, as stated, fails: on an item whose vector has length 2 the projector returns
  normally, and the position it returns has the z coordinate \<open>NaN\<close>.
\<close>

theorem projector_short_vector_counterexample:
  "map position (projectVectorsTo3D
     [\<lparr> item_id = IdNum (Fin 0), key = ''a1B2c3D4'', vector = [Fin 1, Fin 2],
        metadata = [], clusters = [''Group A''] \<rparr>]) = [(Fin 5, Fin 10, NaN)]"
  by (simp add: position_projectVectorsTo3D scaledPosition_def scale_def
      rawPosition_def axisBlocks_def axisDims_def Let_def slice_def slice_from_def
      reduce_sum_def num_of_nat_def)

text \<open>
  Claim C3, amended. For every input item whose vector has length \<open>n < 3\<close> the
  projector does not fail: it returns one output item per input item, and the position of
  that item has the z coordinate \<open>NaN\<close> (the empty third block sums to 0, which is
  divided by the count 0).
\<close>

theorem projector_short_vector:
  assumes i: "i < length data" and n: "length (vector (data ! i)) < 3"
  shows "length (projectVectorsTo3D data) = length data \<and>
         snd (snd (position (projectVectorsTo3D data ! i))) = NaN"
proof -
  have "position (projectVectorsTo3D data ! i) = scaledPosition (rawPosition (vector (data ! i)))"
    using i by (simp add: projectVectorsTo3D_def projectItem_def)
  moreover have "snd (snd (scaledPosition p)) = NaN" if "snd (snd p) = NaN" for p
    using that by (cases p) (simp add: scaledPosition_def)
  ultimately show ?thesis
    using rawPosition_short [OF n] by (simp add: projectVectorsTo3D_def)
qed

theorem projector_short_vector_witness:
  "snd (snd (position (projectVectorsTo3D
     [\<lparr> item_id = IdStr ''7'', key = ''Zx81QwRt'', vector = [Fin 4],
        metadata = [(''rating'', JNum (Fin 3))], clusters = [] \<rparr>] ! 0))) = NaN"
  using projector_short_vector [of 0
     "[\<lparr> item_id = IdStr ''7'', key = ''Zx81QwRt'', vector = [Fin 4],
        metadata = [(''rating'', JNum (Fin 3))], clusters = [] \<rparr>]"]
  by simp

text \<open>
  Claim C8. The projector returns as many items as it is given, in the same order; the
  output item at every index carries the id, key, vector, metadata and clusters of the
  input item at that index, and its \<open>primaryCluster\<close> is \<open>clusters[0]\<close> when the
  cluster list is not empty and is unset otherwise. The model is a pure function of
  the input list: the source reads the input items and builds new objects.
\<close>

theorem projector_frame:
  "length (projectVectorsTo3D data) = length data \<and>
   (\<forall>i < length data.
      item_id (projectVectorsTo3D data ! i) = item_id (data ! i) \<and>
      key (projectVectorsTo3D data ! i) = key (data ! i) \<and>
      vector (projectVectorsTo3D data ! i) = vector (data ! i) \<and>
      metadata (projectVectorsTo3D data ! i) = metadata (data ! i) \<and>
      clusters (projectVectorsTo3D data ! i) = clusters (data ! i) \<and>
      primaryCluster (projectVectorsTo3D data ! i) =
        (if clusters (data ! i) = [] then None else Some (clusters (data ! i) ! 0)))"
  by (auto simp: projectVectorsTo3D_def projectItem_def first_cluster_def split: list.splits)

theorem projector_frame_witness:
  "map primaryCluster (projectVectorsTo3D
     [\<lparr> item_id = IdNum (Fin 0), key = ''a1B2c3D4'', vector = [Fin 1, Fin 2, Fin 3],
        metadata = [], clusters = [''Group C'', ''Group A''] \<rparr>,
      \<lparr> item_id = IdStr ''7'', key = ''Zx81QwRt'', vector = [Fin 4],
        metadata = [(''rating'', JNum (Fin 3))], clusters = [] \<rparr>]) = [Some ''Group C'', None] \<and>
   map key (projectVectorsTo3D
     [\<lparr> item_id = IdNum (Fin 0), key = ''a1B2c3D4'', vector = [Fin 1, Fin 2, Fin 3],
        metadata = [], clusters = [''Group C'', ''Group A''] \<rparr>,
      \<lparr> item_id = IdStr ''7'', key = ''Zx81QwRt'', vector = [Fin 4],
        metadata = [(''rating'', JNum (Fin 3))], clusters = [] \<rparr>]) = [''a1B2c3D4'', ''Zx81QwRt'']"
  using projector_frame [of
     "[\<lparr> item_id = IdNum (Fin 0), key = ''a1B2c3D4'', vector = [Fin 1, Fin 2, Fin 3],
        metadata = [], clusters = [''Group C'', ''Group A''] \<rparr>,
      \<lparr> item_id = IdStr ''7'', key = ''Zx81QwRt'', vector = [Fin 4],
        metadata = [(''rating'', JNum (Fin 3))], clusters = [] \<rparr>]"]
  by (simp add: projectVectorsTo3D_def projectItem_def first_cluster_def)

section \<open>Properties of the generator\<close>

lemma round_even_cases: "round_even y = \<lfloor>y\<rfloor> \<or> round_even y = \<lfloor>y\<rfloor> + 1"
  by (simp add: round_even_def Let_def)

lemma round_even_int: "round_even (of_int n) = n"
  by (simp add: round_even_def Let_def)

lemma round_even_le: "y \<le> of_int n \<Longrightarrow> round_even y \<le> n"
proof -
  assume y: "y \<le> of_int n"
  show ?thesis
  proof (cases "y = of_int n")
    case True
    then show ?thesis by (simp add: round_even_int)
  next
    case False
    with y have "y < of_int n" by simp
    then have "\<lfloor>y\<rfloor> < n" by (simp add: floor_less_iff)
    with round_even_cases [of y] show ?thesis by auto
  qed
qed

lemma round_even_ge: "of_int n \<le> y \<Longrightarrow> n \<le> round_even y"
proof -
  assume "of_int n \<le> y"
  then have "n \<le> \<lfloor>y\<rfloor>" by (simp add: le_floor_iff)
  with round_even_cases [of y] show ?thesis by auto
qed

lemma exponent_small: "\<bar>x\<bar> < 2 \<Longrightarrow> exponent x \<le> 0"
proof (cases "1 \<le> \<bar>x\<bar>")
  case True
  assume "\<bar>x\<bar> < 2"
  with True have "\<lfloor>\<bar>x\<bar>\<rfloor> = 1" by (simp add: floor_eq_iff)
  moreover have "bitlen 1 = 1" by (simp add: bitlen_alt_def)
  ultimately show ?thesis using True by (simp add: exponent_def)
next
  case False
  then show ?thesis using bitlen_nonneg [of "\<lceil>1 / \<bar>x\<bar>\<rceil> - 1"] by (simp add: exponent_def)
qed

lemma float64_quarters:
  assumes lo: "of_int A / 4 \<le> x" and hi: "x \<le> of_int B / 4" and small: "\<bar>x\<bar> < 2"
  shows "of_int A / 4 \<le> float64 x \<and> float64 x \<le> of_int B / 4"
proof (cases "x = 0")
  case True
  with lo hi show ?thesis by (simp add: float64_def)
next
  case False
  define e where "e = max (exponent x) (- 1022)"
  define N where "N = nat (52 - e)"
  from exponent_small [OF small] have e: "e \<le> 0" "- 1022 \<le> e" by (simp_all add: e_def)
  then have N: "2 \<le> N" "e - 52 < 0" "nat (- (e - 52)) = N" by (simp_all add: N_def)
  have ulp: "pow2 (e - 52) = 1 / 2 ^ N"
    using N by (simp add: pow2_def)
  have f: "float64 x = of_int (round_even (x * 2 ^ N)) / 2 ^ N"
    using False by (simp add: float64_def Let_def e_def [symmetric] ulp)
  from N(1) obtain M where M: "N = M + 2" by (metis add.commute le_Suc_ex)
  have q: "(2::real) ^ N = 4 * 2 ^ M" by (simp add: M)
  have "x * 2 ^ N \<le> of_int (B * 2 ^ M)"
    using hi by (simp add: q field_simps)
  from round_even_le [OF this] have "real_of_int (round_even (x * 2 ^ N)) \<le> of_int (B * 2 ^ M)"
    by linarith
  then have u: "float64 x \<le> of_int B / 4"
    unfolding f by (simp add: q field_simps)
  have "of_int (A * 2 ^ M) \<le> x * 2 ^ N"
    using lo by (simp add: q field_simps)
  from round_even_ge [OF this] have "real_of_int (A * 2 ^ M) \<le> of_int (round_even (x * 2 ^ N))"
    by linarith
  then have l: "of_int A / 4 \<le> float64 x"
    unfolding f by (simp add: q field_simps)
  from l u show ?thesis ..
qed

lemma Float64_eq:
  "Float64 r =
     (real (draws r (consumed r) mod 2 ^ 53) / 2 ^ (53 + (draws r (consumed r) div 2 ^ 53) mod 11),
      r\<lparr>consumed := Suc (consumed r)\<rparr>)"
  by (simp add: Float64_def next_draw_def)

lemma Float64_range:
  "0 \<le> fst (Float64 r) \<and> fst (Float64 r) < 1"
proof -
  let ?x = "draws r (consumed r)"
  let ?e = "(?x div 2 ^ 53) mod 11"
  have "?x mod 2 ^ 53 < (2::nat) ^ 53" by simp
  then have "real (?x mod 2 ^ 53) < real ((2::nat) ^ 53)"
    by (rule less_imp_of_nat_less)
  also have "real ((2::nat) ^ 53) \<le> 2 ^ (53 + ?e)"
    by (simp add: power_add)
  finally have "real (?x mod 2 ^ 53) / 2 ^ (53 + ?e) < 1" by simp
  then show ?thesis by (simp add: Float64_eq)
qed

lemma center_value_range:
  "0 \<le> x \<Longrightarrow> x < 1 \<Longrightarrow> - 1 \<le> float64 (float64 (x * 2) - 1) \<and> float64 (float64 (x * 2) - 1) \<le> 1"
proof -
  assume x: "0 \<le> x" "x < 1"
  have "of_int 0 / 4 \<le> float64 (x * 2) \<and> float64 (x * 2) \<le> of_int 8 / 4"
    using x by (intro float64_quarters) simp_all
  then have a: "0 \<le> float64 (x * 2)" "float64 (x * 2) \<le> 2" by simp_all
  have "of_int (- 4) / 4 \<le> float64 (float64 (x * 2) - 1) \<and> float64 (float64 (x * 2) - 1) \<le> of_int 4 / 4"
    using a by (intro float64_quarters) simp_all
  then show ?thesis by simp
qed

lemma noise_value_range:
  "0 \<le> x \<Longrightarrow> x < 1 \<Longrightarrow>
   - 0.25 \<le> float64 (float64 (x * 0.5) - 0.25) \<and> float64 (float64 (x * 0.5) - 0.25) \<le> 0.25"
proof -
  assume x: "0 \<le> x" "x < 1"
  have "of_int 0 / 4 \<le> float64 (x * 0.5) \<and> float64 (x * 0.5) \<le> of_int 2 / 4"
    using x by (intro float64_quarters) simp_all
  then have a: "0 \<le> float64 (x * 0.5)" "float64 (x * 0.5) \<le> 1 / 2" by simp_all
  have "of_int (- 1) / 4 \<le> float64 (float64 (x * 0.5) - 0.25) \<and>
        float64 (float64 (x * 0.5) - 0.25) \<le> of_int 1 / 4"
    using a by (intro float64_quarters) simp_all
  then show ?thesis by simp
qed

lemma sum_value_range:
  "- 1 \<le> c \<Longrightarrow> c \<le> 1 \<Longrightarrow> - 0.25 \<le> n \<Longrightarrow> n \<le> 0.25 \<Longrightarrow>
   - 1.25 \<le> float64 (c + n) \<and> float64 (c + n) \<le> 1.25"
proof -
  assume "- 1 \<le> c" "c \<le> 1" "- 0.25 \<le> n" "n \<le> 0.25"
  then have "of_int (- 5) / 4 \<le> float64 (c + n) \<and> float64 (c + n) \<le> of_int 5 / 4"
    by (intro float64_quarters) simp_all
  then show ?thesis by simp
qed

lemma Intn_pos:
  "0 < n \<Longrightarrow> Intn n r = Inr (int (draws r (consumed r)) mod n, r\<lparr>consumed := Suc (consumed r)\<rparr>)"
  by (simp add: Intn_def next_draw_def)

lemma index_in_range:
  "0 \<le> k \<Longrightarrow> k < int (length v) \<Longrightarrow> index v k = Inr (v ! nat k)"
  by (simp add: index_def)

lemma fisher_yates_mset:
  "i < length xs \<or> i = 0 \<Longrightarrow>
   \<exists>ys. fisher_yates i xs r = Inr (ys, r\<lparr>consumed := consumed r + i\<rparr>) \<and> mset ys = mset xs"
proof (induction i arbitrary: xs r)
  case 0
  then show ?case by simp
next
  case (Suc i)
  then have len: "Suc i < length xs" by simp
  let ?j = "int (draws r (consumed r)) mod (int (Suc i) + 1)"
  let ?r = "r\<lparr>consumed := Suc (consumed r)\<rparr>"
  have I: "Intn (int (Suc i) + 1) r = Inr (?j, ?r)"
    by (rule Intn_pos) simp
  have j0: "0 \<le> ?j" and j1: "?j < int (Suc i) + 1" by simp_all
  from j1 len have j2: "nat ?j < length xs" by linarith
  have a: "index xs (int (Suc i)) = Inr (xs ! Suc i)"
    using len by (simp add: index_def del: of_nat_Suc)
  have b: "index xs ?j = Inr (xs ! nat ?j)"
    using j0 j2 by (simp add: index_def)
  let ?xs = "xs[Suc i := xs ! nat ?j, nat ?j := xs ! Suc i]"
  have m: "mset ?xs = mset xs"
    using len j2 by (simp add: mset_swap)
  have "i < length ?xs \<or> i = 0" using len by simp
  from Suc.IH [OF this, of ?r] obtain ys where
    "fisher_yates i ?xs ?r = Inr (ys, ?r\<lparr>consumed := consumed ?r + i\<rparr>)" "mset ys = mset ?xs"
    by blast
  moreover have "fisher_yates (Suc i) xs r = fisher_yates i ?xs ?r"
    by (simp only: fisher_yates.simps I a b sum.case prod.case)
  ultimately show ?case
    using m by simp
qed

lemma getRandomItems_eq:
  assumes "0 \<le> minItems" "minItems \<le> maxItems" "maxItems \<le> int (length items)"
  shows "\<exists>zs n. getRandomItems items minItems maxItems r =
             Inr (take n zs, r\<lparr>consumed := consumed r + 1 + (length items - 1)\<rparr>) \<and>
           mset zs = mset items \<and> minItems \<le> int n \<and> int n \<le> maxItems"
proof -
  let ?n = "maxItems - minItems + 1"
  let ?k = "int (draws r (consumed r)) mod ?n"
  let ?r = "r\<lparr>consumed := Suc (consumed r)\<rparr>"
  let ?r2 = "?r\<lparr>consumed := consumed ?r + (length items - 1)\<rparr>"
  have n: "0 < ?n" using assms by simp
  have I: "Intn ?n r = Inr (?k, ?r)"
    using n by (rule Intn_pos)
  have k: "0 \<le> ?k" "?k < ?n"
    using n pos_mod_sign [of ?n] pos_mod_bound [of ?n] by blast+
  have fy: "length items - 1 < length items \<or> length items - 1 = 0" by arith
  obtain zs where F: "fisher_yates (length items - 1) items ?r = Inr (zs, ?r2)"
    and M: "mset zs = mset items"
    using fisher_yates_mset [OF fy, of ?r] by blast
  from M have len: "length zs = length items" by (rule mset_eq_length)
  from k assms have num: "\<not> ?k + minItems < 0" "\<not> ?k + minItems > int (length zs)"
    "minItems \<le> int (nat (?k + minItems))" "int (nat (?k + minItems)) \<le> maxItems"
    unfolding len by linarith+
  have "getRandomItems items minItems maxItems r = Inr (take (nat (?k + minItems)) zs, ?r2)"
    by (simp only: getRandomItems_def and_then_def I F Let_def sum.case prod.case num if_False)
  moreover have "?r2 = r\<lparr>consumed := consumed r + 1 + (length items - 1)\<rparr>" by simp
  ultimately show ?thesis using M num(3,4) by metis
qed

lemma getRandomItems_distinct:
  assumes "0 \<le> minItems" "minItems \<le> maxItems" "maxItems \<le> int (length items)"
    and "distinct items"
    and res: "getRandomItems items minItems maxItems r = Inr (ys, r')"
  shows "distinct ys \<and> set ys \<subseteq> set items"
proof -
  from getRandomItems_eq [OF assms(1-3), of r] res obtain zs n where
    ys: "ys = take n zs" and M: "mset zs = mset items"
    by auto
  from M \<open>distinct items\<close> have "distinct zs" "set zs = set items"
    by (metis mset_eq_imp_distinct_iff, metis mset_eq_setD)
  then show ?thesis
    unfolding ys by (metis distinct_take set_take_subset)
qed

lemma sampleClusters_facts:
  "length sampleClusters = 10" "distinct sampleClusters"
  by (simp_all add: sampleClusters_def)

lemma find_primary_found:
  "cs \<noteq> [] \<Longrightarrow> cs ! 0 \<in> set vocab \<Longrightarrow>
   \<exists>k. find_primary idx vocab cs = Inr k \<and> idx \<le> k \<and> k < idx + int (length vocab) \<and>
       vocab ! nat (k - idx) = cs ! 0"
proof (induction vocab arbitrary: idx)
  case Nil
  then show ?case by simp
next
  case (Cons cluster rest)
  from Cons.prems have i0: "index cs 0 = Inr (cs ! 0)"
    by (simp add: index_def)
  show ?case
  proof (cases "cluster = cs ! 0")
    case True
    then show ?thesis by (simp add: i0)
  next
    case False
    with Cons.prems have "cs ! 0 \<in> set rest" by simp
    from Cons.IH [OF Cons.prems(1) this, of "idx + 1"] obtain k where
      k: "find_primary (idx + 1) rest cs = Inr k" "idx + 1 \<le> k" "k < idx + 1 + int (length rest)"
         "rest ! nat (k - (idx + 1)) = cs ! 0" by blast
    have "nat (k - idx) = Suc (nat (k - (idx + 1)))" using k(2) by simp
    with k False show ?thesis by (simp add: i0)
  qed
qed

lemma fill_center_result:
  "fill_center j c r = (c', r') \<Longrightarrow>
   r' = r\<lparr>consumed := consumed r + (length c - j)\<rparr> \<and> length c' = length c \<and>
   (\<forall>k < length c. c' ! k =
      (if k < j then c ! k
       else float64 (float64 (fst (Float64 (r\<lparr>consumed := consumed r + (k - j)\<rparr>)) * 2) - 1)))"
proof (induction j c r arbitrary: c' r' rule: fill_center.induct)
  case (1 j c r)
  show ?case
  proof (cases "j < length c")
    case False
    with "1.prems" show ?thesis by (subst (asm) fill_center.simps) auto
  next
    case True
    let ?x = "real (draws r (consumed r) mod 2 ^ 53) / 2 ^ (53 + (draws r (consumed r) div 2 ^ 53) mod 11)"
    let ?r = "r\<lparr>consumed := Suc (consumed r)\<rparr>"
    let ?v = "float64 (float64 (?x * 2) - 1)"
    have F: "Float64 r = (?x, ?r)" by (rule Float64_eq)
    from "1.prems" True have rec: "fill_center (Suc j) (c[j := ?v]) ?r = (c', r')"
      by (subst (asm) fill_center.simps) (simp add: F)
    from "1.IH" [OF True F [symmetric] rec]
    have st: "r' = ?r\<lparr>consumed := consumed ?r + (length (c[j := ?v]) - Suc j)\<rparr>"
      and len: "length c' = length c"
      and el: "\<And>k. k < length c \<Longrightarrow> c' ! k =
        (if k < Suc j then c[j := ?v] ! k
         else float64 (float64 (fst (Float64 (?r\<lparr>consumed := consumed ?r + (k - Suc j)\<rparr>)) * 2) - 1))"
      by simp_all
    have st': "r' = r\<lparr>consumed := consumed r + (length c - j)\<rparr>"
      using st True by simp
    have "c' ! k = (if k < j then c ! k
       else float64 (float64 (fst (Float64 (r\<lparr>consumed := consumed r + (k - j)\<rparr>)) * 2) - 1))"
      if k: "k < length c" for k
    proof -
      consider "k < j" | "k = j" | "j < k" by arith
      then show ?thesis
      proof cases
        case 1
        with el [OF k] show ?thesis by simp
      next
        case 2
        with el [OF k] True show ?thesis by (simp add: F)
      next
        case 3
        then have "Suc (consumed r) + (k - Suc j) = consumed r + (k - j)" by arith
        with el [OF k] 3 show ?thesis by simp
      qed
    qed
    with len st' show ?thesis by simp
  qed
qed

lemma fill_center_fresh:
  "\<exists>c. fill_center 0 (replicate n 0) r = (c, r\<lparr>consumed := consumed r + n\<rparr>) \<and> length c = n \<and>
     (\<forall>j < n. c ! j = float64 (float64 (fst (Float64 (r\<lparr>consumed := consumed r + j\<rparr>)) * 2) - 1))"
proof -
  obtain c r' where F: "fill_center 0 (replicate n 0) r = (c, r')"
    by (cases "fill_center 0 (replicate n 0) r") auto
  from fill_center_result [OF F] F show ?thesis by simp
qed

lemma makeslice_Inr:
  "makeslice m elemsize len cap = Inr u \<longleftrightarrow>
     0 \<le> len \<and> len \<le> cap \<and> elemsize * nat cap < 2 ^ 64 \<and> elemsize * nat cap \<le> maxAlloc m \<and>
     (elemsize * nat cap = 0 \<or> provides m (elemsize * nat cap))"
  by (auto simp: makeslice_def out_of_range_def)

lemma makeslice_negative:
  "len < 0 \<Longrightarrow> makeslice m elemsize len len = Inl MakeSliceLenOutOfRange"
  by (simp add: makeslice_def out_of_range_def)

lemma makeslice_not_index: "makeslice m elemsize len cap \<noteq> Inl IndexOutOfRange"
  by (simp add: makeslice_def)

lemma make_centers_fail:
  "makeslice m sizeof_float64 dimensions dimensions = Inl e \<Longrightarrow> i < length cc \<Longrightarrow>
   make_centers m i dimensions cc r = Inl e"
  by (subst make_centers.simps) simp

lemma make_centers_ok:
  assumes ms: "makeslice m sizeof_float64 dimensions dimensions = Inr ()"
  shows "\<exists>cc'. make_centers m i dimensions cc r =
            Inr (cc', r\<lparr>consumed := consumed r + (length cc - i) * nat dimensions\<rparr>) \<and>
          length cc' = length cc \<and>
          (\<forall>k < length cc.
             if k < i then cc' ! k = cc ! k
             else length (cc' ! k) = nat dimensions \<and>
               (\<forall>j < nat dimensions. cc' ! k ! j =
                  float64 (float64 (fst (Float64
                    (r\<lparr>consumed := consumed r + (k - i) * nat dimensions + j\<rparr>)) * 2) - 1)))"
proof (induction "length cc - i" arbitrary: i cc r)
  case 0
  then have "\<not> i < length cc" by simp
  then show ?case by (subst make_centers.simps) simp
next
  case (Suc n)
  then have lt: "i < length cc" by simp
  let ?d = "nat dimensions"
  from fill_center_fresh [of ?d r] obtain c where
    F: "fill_center 0 (replicate ?d 0) r = (c, r\<lparr>consumed := consumed r + ?d\<rparr>)"
    and cl: "length c = ?d"
    and ce: "\<And>j. j < ?d \<Longrightarrow> c ! j =
        float64 (float64 (fst (Float64 (r\<lparr>consumed := consumed r + j\<rparr>)) * 2) - 1)"
    by blast
  let ?r = "r\<lparr>consumed := consumed r + ?d\<rparr>"
  let ?cc = "cc[i := c]"
  from Suc.hyps(2) have "n = length ?cc - Suc i" by simp
  from Suc.hyps(1) [OF this, of ?r] obtain cc' where
    rec: "make_centers m (Suc i) dimensions ?cc ?r =
            Inr (cc', ?r\<lparr>consumed := consumed ?r + (length ?cc - Suc i) * ?d\<rparr>)"
    and len: "length cc' = length ?cc"
    and el: "\<And>k. k < length ?cc \<Longrightarrow>
             (if k < Suc i then cc' ! k = ?cc ! k
             else length (cc' ! k) = ?d \<and>
               (\<forall>j < ?d. cc' ! k ! j =
                  float64 (float64 (fst (Float64
                    (?r\<lparr>consumed := consumed ?r + (k - Suc i) * ?d + j\<rparr>)) * 2) - 1)))"
    by blast
  have st: "?r\<lparr>consumed := consumed ?r + (length ?cc - Suc i) * ?d\<rparr>
      = r\<lparr>consumed := consumed r + (length cc - i) * ?d\<rparr>"
  proof -
    from lt have "length cc - i = Suc (length cc - Suc i)" by simp
    then show ?thesis by simp
  qed
  have eq: "make_centers m i dimensions cc r =
      Inr (cc', r\<lparr>consumed := consumed r + (length cc - i) * ?d\<rparr>)"
    by (subst make_centers.simps) (simp only: lt ms F rec st if_True sum.case prod.case)
  have "if k < i then cc' ! k = cc ! k
        else length (cc' ! k) = ?d \<and>
               (\<forall>j < ?d. cc' ! k ! j =
                  float64 (float64 (fst (Float64
                    (r\<lparr>consumed := consumed r + (k - i) * ?d + j\<rparr>)) * 2) - 1))"
    if k: "k < length cc" for k
  proof -
    from k have k': "k < length ?cc" by simp
    consider "k < i" | "k = i" | "i < k" by arith
    then show ?thesis
    proof cases
      case 1
      with el [OF k'] show ?thesis by simp
    next
      case 2
      with el [OF k'] lt cl ce show ?thesis by simp
    next
      case 3
      then have "k - i = Suc (k - Suc i)" by simp
      then have "\<And>j. consumed r + ?d + (k - Suc i) * ?d + j = consumed r + (k - i) * ?d + j"
        by simp
      with el [OF k'] 3 show ?thesis by simp
    qed
  qed
  with eq len show ?case by auto
qed

lemma fill_vector_ok:
  "length center \<le> length vec \<Longrightarrow>
   \<exists>vec'. fill_vector j center vec r =
            Inr (vec', r\<lparr>consumed := consumed r + (length center - j)\<rparr>) \<and>
     length vec' = length vec \<and>
     (\<forall>k < length vec. vec' ! k =
        (if j \<le> k \<and> k < length center
         then float64 (center ! k +
                float64 (float64 (fst (Float64 (r\<lparr>consumed := consumed r + (k - j)\<rparr>)) * 0.5) - 0.25))
         else vec ! k))"
proof (induction "length center - j" arbitrary: j vec r)
  case 0
  then have "\<not> j < length center" by simp
  then show ?case by (subst fill_vector.simps) simp
next
  case (Suc n)
  then have True: "j < length center" by simp
  let ?x = "real (draws r (consumed r) mod 2 ^ 53) / 2 ^ (53 + (draws r (consumed r) div 2 ^ 53) mod 11)"
  let ?r = "r\<lparr>consumed := Suc (consumed r)\<rparr>"
  let ?vec = "vec[j := float64 (center ! j + float64 (float64 (?x * 0.5) - 0.25))]"
  have F: "Float64 r = (?x, ?r)" by (rule Float64_eq)
  from True Suc.prems have jv: "j < length vec" by simp
  from Suc.prems have l: "length center \<le> length ?vec" by simp
  from Suc.hyps(2) have "n = length center - Suc j" by simp
  from Suc.hyps(1) [OF this l, of ?r] obtain vec' where
    rec: "fill_vector (Suc j) center ?vec ?r =
            Inr (vec', ?r\<lparr>consumed := consumed ?r + (length center - Suc j)\<rparr>)"
    and len: "length vec' = length vec"
    and el: "\<And>k. k < length vec \<Longrightarrow> vec' ! k =
        (if Suc j \<le> k \<and> k < length center
         then float64 (center ! k +
                float64 (float64 (fst (Float64 (?r\<lparr>consumed := consumed ?r + (k - Suc j)\<rparr>)) * 0.5) - 0.25))
         else ?vec ! k)"
    by auto
  have st: "?r\<lparr>consumed := consumed ?r + (length center - Suc j)\<rparr>
      = r\<lparr>consumed := consumed r + (length center - j)\<rparr>"
    using True by simp
  have eq: "fill_vector j center vec r =
      Inr (vec', r\<lparr>consumed := consumed r + (length center - j)\<rparr>)"
    by (subst fill_vector.simps) (simp only: True jv F rec st if_True prod.case)
  have "vec' ! k =
        (if j \<le> k \<and> k < length center
         then float64 (center ! k +
                float64 (float64 (fst (Float64 (r\<lparr>consumed := consumed r + (k - j)\<rparr>)) * 0.5) - 0.25))
         else vec ! k)" if k: "k < length vec" for k
  proof -
    consider "k < j" | "k = j" | "j < k" by arith
    then show ?thesis
    proof cases
      case 1
      with el [OF k] show ?thesis by simp
    next
      case 2
      with el [OF k] True jv show ?thesis by (simp add: F)
    next
      case 3
      then have "Suc (consumed r) + (k - Suc j) = consumed r + (k - j)" by arith
      with el [OF k] 3 show ?thesis by simp
    qed
  qed
  with eq len show ?case by blast
qed

lemma getRandomItem_strings:
  "v \<noteq> [] \<Longrightarrow>
   \<exists>s. getRandomItem (GoStrings v) r = Inr (GoString s, r\<lparr>consumed := Suc (consumed r)\<rparr>) \<and> s \<in> set v"
proof -
  assume "v \<noteq> []"
  then have n: "0 < int (length v)" by simp
  let ?k = "int (draws r (consumed r)) mod int (length v)"
  have k: "0 \<le> ?k" "?k < int (length v)"
    using n pos_mod_sign [of "int (length v)"] pos_mod_bound [of "int (length v)"] by blast+
  then have "nat ?k < length v" by linarith
  then have "v ! nat ?k \<in> set v" by simp
  moreover have "getRandomItem (GoStrings v) r = Inr (GoString (v ! nat ?k), r\<lparr>consumed := Suc (consumed r)\<rparr>)"
    by (simp only: getRandomItem_def goval.case Intn_pos [OF n] and_then_def sum.case prod.case
        index_in_range [OF k])
  ultimately show ?thesis by blast
qed

lemma getRandomItem_ints:
  "v \<noteq> [] \<Longrightarrow>
   \<exists>s. getRandomItem (GoInts v) r = Inr (GoInt s, r\<lparr>consumed := Suc (consumed r)\<rparr>) \<and> s \<in> set v"
proof -
  assume "v \<noteq> []"
  then have n: "0 < int (length v)" by simp
  let ?k = "int (draws r (consumed r)) mod int (length v)"
  have k: "0 \<le> ?k" "?k < int (length v)"
    using n pos_mod_sign [of "int (length v)"] pos_mod_bound [of "int (length v)"] by blast+
  then have "nat ?k < length v" by linarith
  then have "v ! nat ?k \<in> set v" by simp
  moreover have "getRandomItem (GoInts v) r = Inr (GoInt (v ! nat ?k), r\<lparr>consumed := Suc (consumed r)\<rparr>)"
    by (simp only: getRandomItem_def goval.case Intn_pos [OF n] and_then_def sum.case prod.case
        index_in_range [OF k])
  ultimately show ?thesis by blast
qed

text \<open>Steps of a chain that ends in a given state \<open>R\<close>.\<close>

lemma and_then_random_string:
  assumes "v \<noteq> []" and "\<And>s. \<exists>y. f s (r\<lparr>consumed := Suc (consumed r)\<rparr>) = Inr (y, R)"
  shows "\<exists>y. and_then (getRandomItem (GoStrings v) r)
           (\<lambda>(a, r'). and_then (assert_string a) (\<lambda>s. f s r')) = Inr (y, R)"
  using getRandomItem_strings [OF assms(1), of r] assms(2)
  by (auto simp: and_then_def assert_string_def)

lemma and_then_random_int:
  assumes "v \<noteq> []" and "\<And>s. \<exists>y. f s (r\<lparr>consumed := Suc (consumed r)\<rparr>) = Inr (y, R)"
  shows "\<exists>y. and_then (getRandomItem (GoInts v) r)
           (\<lambda>(a, r'). and_then (assert_int a) (\<lambda>s. f s r')) = Inr (y, R)"
  using getRandomItem_ints [OF assms(1), of r] assms(2)
  by (auto simp: and_then_def assert_int_def)

lemma and_then_Intn:
  assumes "0 < n" and "\<And>k. \<exists>y. f k (r\<lparr>consumed := Suc (consumed r)\<rparr>) = Inr (y, R)"
  shows "\<exists>y. and_then (Intn n r) (\<lambda>(k, r'). f k r') = Inr (y, R)"
  using assms(2) by (simp add: Intn_pos [OF assms(1)] and_then_def)

lemma and_then_getRandomItems:
  assumes "0 \<le> minItems" "minItems \<le> maxItems" "maxItems \<le> int (length items)"
    and "\<And>ys. \<exists>y. f ys (r\<lparr>consumed := consumed r + 1 + (length items - 1)\<rparr>) = Inr (y, R)"
  shows "\<exists>y. and_then (getRandomItems items minItems maxItems r) (\<lambda>(ys, r'). f ys r') = Inr (y, R)"
  using getRandomItems_eq [OF assms(1-3), of r] assms(4)
  by (auto simp: and_then_def)

lemma case_Float64:
  assumes "\<And>x. \<exists>y. f x (r\<lparr>consumed := Suc (consumed r)\<rparr>) = Inr (y, R)"
  shows "\<exists>y. (case Float64 r of (x, r') \<Rightarrow> f x r') = Inr (y, R)"
  using assms by (simp add: Float64_eq)

lemma case_getRandomNumber:
  assumes "\<And>x. \<exists>y. f x (r\<lparr>consumed := Suc (consumed r)\<rparr>) = Inr (y, R)"
  shows "\<exists>y. (case getRandomNumber a b d r of (x, r') \<Rightarrow> f x r') = Inr (y, R)"
  using assms by (simp add: getRandomNumber_def Float64_eq Let_def)

lemma Inr_state: "R' = R \<Longrightarrow> \<exists>y. Inr (x, R') = Inr (y, R)"
  by simp

lemma make_metadata_ok:
  "\<exists>md. make_metadata now r = Inr (md, r\<lparr>consumed := consumed r + 28\<rparr>)"
  unfolding make_metadata_def
  by (intro and_then_random_string and_then_random_int and_then_Intn and_then_getRandomItems
      case_Float64 case_getRandomNumber Inr_state)
    (simp_all add: sampleAttributes_def sampleNames_def sampleTypes_def sampleCategories_def
      sampleRatings_def sampleStatuses_def samplePriorities_def sampleRegions_def
      sampleDepartments_def)

lemma key_chars_ok:
  "\<exists>cs. key_chars n r = Inr (cs, r\<lparr>consumed := consumed r + n\<rparr>) \<and> length cs = n \<and>
     set cs \<subseteq> set chars"
proof (induction n arbitrary: r)
  case 0
  then show ?case by simp
next
  case (Suc n)
  have n: "0 < int (length chars)" by (simp add: chars_def)
  let ?k = "int (draws r (consumed r)) mod int (length chars)"
  let ?r = "r\<lparr>consumed := Suc (consumed r)\<rparr>"
  have k: "0 \<le> ?k" "?k < int (length chars)"
    using n pos_mod_sign [of "int (length chars)"] pos_mod_bound [of "int (length chars)"] by blast+
  then have "nat ?k < length chars" by linarith
  then have m: "chars ! nat ?k \<in> set chars" by simp
  from Suc [of ?r] obtain cs where
    rec: "key_chars n ?r = Inr (cs, ?r\<lparr>consumed := consumed ?r + n\<rparr>)" "length cs = n"
      "set cs \<subseteq> set chars" by blast
  have "key_chars (Suc n) r = Inr (chars ! nat ?k # cs, ?r\<lparr>consumed := consumed ?r + n\<rparr>)"
    by (simp only: key_chars.simps Intn_pos [OF n] index_in_range [OF k] rec(1) sum.case prod.case)
  with rec m show ?case by simp
qed

lemma make_item_ok:
  assumes ms: "makeslice m sizeof_float64 dimensions dimensions = Inr ()"
    and cc: "length cc = length sampleClusters" "\<forall>c \<in> set cc. length c = nat dimensions"
  shows "\<exists>item. make_item m i dimensions clock cc r =
            Inr (item, r\<lparr>consumed := consumed r + (nat dimensions + 46)\<rparr>) \<and>
     ID item = Itoa i \<and> length (Key item) = 8 \<and>
     1 \<le> length (Clusters item) \<and> length (Clusters item) \<le> 3 \<and>
     distinct (Clusters item) \<and> set (Clusters item) \<subseteq> set sampleClusters \<and>
     length (Vector item) = nat dimensions \<and>
     (\<exists>k. find_primary 0 sampleClusters (Clusters item) = Inr k \<and> 0 \<le> k \<and>
        k < int (length sampleClusters) \<and> sampleClusters ! nat k = Clusters item ! 0 \<and>
        (\<forall>j < nat dimensions. Vector item ! j =
           float64 (cc ! nat k ! j +
             float64 (float64 (fst (Float64 (r\<lparr>consumed := consumed r + 10 + j\<rparr>)) * 0.5) - 0.25))))"
proof -
  have "(0::int) \<le> 1" "(1::int) \<le> 3" "3 \<le> int (length sampleClusters)"
    by (simp_all add: sampleClusters_facts)
  from getRandomItems_eq [OF this, of r] obtain zs n where
    G: "getRandomItems sampleClusters 1 3 r =
          Inr (take n zs, r\<lparr>consumed := consumed r + 1 + (length sampleClusters - 1)\<rparr>)"
    and M: "mset zs = mset sampleClusters" and n: "1 \<le> int n" "int n \<le> 3"
    by blast
  let ?r1 = "r\<lparr>consumed := consumed r + 10\<rparr>"
  have r1: "r\<lparr>consumed := consumed r + 1 + (length sampleClusters - 1)\<rparr> = ?r1"
    by (simp add: sampleClusters_facts)
  let ?cs = "take n zs"
  from M have zlen: "length zs = 10" and zdist: "distinct zs" and zset: "set zs = set sampleClusters"
    using mset_eq_length [OF M] mset_eq_imp_distinct_iff [OF M] mset_eq_setD [OF M]
    by (simp_all add: sampleClusters_facts)
  from n zlen have clen: "length ?cs = n" "1 \<le> n" "n \<le> 3" by simp_all
  then have ne: "?cs \<noteq> []" by auto
  have cdist: "distinct ?cs" using zdist by simp
  have csub: "set ?cs \<subseteq> set sampleClusters"
    using zset set_take_subset [of n zs] by simp
  from ne csub have "?cs ! 0 \<in> set sampleClusters"
    by (metis length_greater_0_conv nth_mem subsetD)
  from find_primary_found [OF ne this, of 0] obtain k where
    k: "find_primary 0 sampleClusters ?cs = Inr k" "0 \<le> k" "k < int (length sampleClusters)"
       "sampleClusters ! nat k = ?cs ! 0"
    by auto
  from k(2,3) cc(1) have kc: "k < int (length cc)" "nat k < length cc" by simp_all
  have ix: "index cc k = Inr (cc ! nat k)"
    by (rule index_in_range [OF k(2) kc(1)])
  let ?center = "cc ! nat k"
  from kc(2) cc(2) have cl: "length ?center = nat dimensions" by simp
  then have "length ?center \<le> length (replicate (nat dimensions) (0::real))" by simp
  from fill_vector_ok [OF this, of 0 ?r1] obtain vec where
    V: "fill_vector 0 ?center (replicate (nat dimensions) 0) ?r1 =
          Inr (vec, ?r1\<lparr>consumed := consumed ?r1 + (length ?center - 0)\<rparr>)"
    and vlen: "length vec = nat dimensions"
    and vel: "\<And>j. j < nat dimensions \<Longrightarrow> vec ! j =
        float64 (?center ! j +
          float64 (float64 (fst (Float64 (?r1\<lparr>consumed := consumed ?r1 + j\<rparr>)) * 0.5) - 0.25))"
    using cl by auto
  let ?r2 = "r\<lparr>consumed := consumed r + 10 + nat dimensions\<rparr>"
  have r2: "?r1\<lparr>consumed := consumed ?r1 + (length ?center - 0)\<rparr> = ?r2"
    by (simp add: cl)
  from make_metadata_ok [of "clock i" ?r2] obtain md where
    MD: "make_metadata (clock i) ?r2 = Inr (md, ?r2\<lparr>consumed := consumed ?r2 + 28\<rparr>)" by auto
  let ?r3 = "r\<lparr>consumed := consumed r + 10 + nat dimensions + 28\<rparr>"
  have r3: "?r2\<lparr>consumed := consumed ?r2 + 28\<rparr> = ?r3" by simp
  from key_chars_ok [of 8 ?r3] obtain ky where
    K: "key_chars 8 ?r3 = Inr (ky, ?r3\<lparr>consumed := consumed ?r3 + 8\<rparr>)" "length ky = 8" by blast
  have r4: "?r3\<lparr>consumed := consumed ?r3 + 8\<rparr> = r\<lparr>consumed := consumed r + (nat dimensions + 46)\<rparr>"
    by simp
  have K': "generateRandomKey 8 ?r3 = Inr (ky, r\<lparr>consumed := consumed r + (nat dimensions + 46)\<rparr>)"
    using K(1) by (simp add: generateRandomKey_def)
  let ?item = "\<lparr> ID = Itoa i, Key = ky, Vector = vec, Metadata = md, Clusters = ?cs \<rparr>"
  have "make_item m i dimensions clock cc r =
      Inr (?item, r\<lparr>consumed := consumed r + (nat dimensions + 46)\<rparr>)"
    by (simp only: make_item_def and_then_def G r1 k(1) ix ms V r2 MD r3 K' sum.case prod.case)
  moreover have "\<forall>j < nat dimensions. vec ! j =
      float64 (cc ! nat k ! j +
        float64 (float64 (fst (Float64 (r\<lparr>consumed := consumed r + 10 + j\<rparr>)) * 0.5) - 0.25))"
    using vel by simp
  ultimately show ?thesis
    using K(2) clen cdist csub vlen k by (intro exI [of _ ?item]) auto
qed

lemma make_item_fail:
  assumes ms: "makeslice m sizeof_float64 dimensions dimensions = Inl e"
    and cc: "length cc = length sampleClusters"
  shows "make_item m i dimensions clock cc r = Inl e"
proof -
  have "(0::int) \<le> 1" "(1::int) \<le> 3" "3 \<le> int (length sampleClusters)"
    by (simp_all add: sampleClusters_facts)
  from getRandomItems_eq [OF this, of r] obtain zs n where
    G: "getRandomItems sampleClusters 1 3 r =
          Inr (take n zs, r\<lparr>consumed := consumed r + 1 + (length sampleClusters - 1)\<rparr>)"
    and M: "mset zs = mset sampleClusters" and n: "1 \<le> int n" "int n \<le> 3"
    by blast
  let ?cs = "take n zs"
  from M have zlen: "length zs = 10" and zset: "set zs = set sampleClusters"
    using mset_eq_length [OF M] mset_eq_setD [OF M] by (simp_all add: sampleClusters_facts)
  from n zlen have ne: "?cs \<noteq> []" by auto
  have csub: "set ?cs \<subseteq> set sampleClusters"
    using zset set_take_subset [of n zs] by simp
  from ne csub have "?cs ! 0 \<in> set sampleClusters"
    by (metis length_greater_0_conv nth_mem subsetD)
  from find_primary_found [OF ne this, of 0] obtain k where
    k: "find_primary 0 sampleClusters ?cs = Inr k" "0 \<le> k" "k < int (length sampleClusters)"
    by auto
  from k(2,3) cc have ix: "index cc k = Inr (cc ! nat k)"
    by (simp add: index_def)
  show ?thesis
    by (simp only: make_item_def and_then_def G k(1) ix ms sum.case prod.case)
qed

lemma points_loop_ok:
  assumes step: "\<And>i r. \<exists>item. make_item m i d clock cc r =
      Inr (item, r\<lparr>consumed := consumed r + c\<rparr>) \<and> P i r item"
  shows "\<exists>data'. points_loop m i limit d clock cc data r =
       Inr (data', r\<lparr>consumed := consumed r + nat (limit - i) * c\<rparr>) \<and>
     length data' = length data + nat (limit - i) \<and>
     (\<forall>k < length data. data' ! k = data ! k) \<and>
     (\<forall>k < nat (limit - i).
        P (i + int k) (r\<lparr>consumed := consumed r + k * c\<rparr>) (data' ! (length data + k)))"
proof (induction "nat (limit - i)" arbitrary: i data r)
  case 0
  then have "\<not> i < limit" by simp
  then have "points_loop m i limit d clock cc data r = Inr (data, r)"
    by (subst points_loop.simps) simp
  with 0 show ?case by simp
next
  case (Suc n)
  then have lt: "i < limit" and n: "n = nat (limit - (i + 1))" by simp_all
  let ?r = "r\<lparr>consumed := consumed r + c\<rparr>"
  from step [of i r] obtain item where
    it: "make_item m i d clock cc r = Inr (item, ?r)" "P i r item" by blast
  from Suc.hyps(1) [OF n, of "data @ [item]" ?r] obtain data' where
    rec: "points_loop m (i + 1) limit d clock cc (data @ [item]) ?r =
            Inr (data', ?r\<lparr>consumed := consumed ?r + nat (limit - (i + 1)) * c\<rparr>)"
    and len: "length data' = length (data @ [item]) + nat (limit - (i + 1))"
    and old: "\<And>k. k < length (data @ [item]) \<Longrightarrow> data' ! k = (data @ [item]) ! k"
    and new: "\<And>k. k < nat (limit - (i + 1)) \<Longrightarrow>
        P (i + 1 + int k) (?r\<lparr>consumed := consumed ?r + k * c\<rparr>)
          (data' ! (length (data @ [item]) + k))"
    by blast
  from lt have s: "nat (limit - i) = Suc (nat (limit - (i + 1)))" by simp
  have st: "?r\<lparr>consumed := consumed ?r + nat (limit - (i + 1)) * c\<rparr>
      = r\<lparr>consumed := consumed r + nat (limit - i) * c\<rparr>"
    unfolding s by simp
  have eq: "points_loop m i limit d clock cc data r =
      Inr (data', r\<lparr>consumed := consumed r + nat (limit - i) * c\<rparr>)"
    by (subst points_loop.simps) (simp only: lt it(1) rec st if_True sum.case prod.case)
  have l: "length data' = length data + nat (limit - i)"
    using len lt by simp
  have o: "data' ! k = data ! k" if "k < length data" for k
    using old [of k] that by (simp add: nth_append)
  have p: "P (i + int k) (r\<lparr>consumed := consumed r + k * c\<rparr>) (data' ! (length data + k))"
    if k: "k < nat (limit - i)" for k
  proof (cases k)
    case 0
    with old [of "length data"] it(2) show ?thesis by simp
  next
    case (Suc j)
    with k have "j < nat (limit - (i + 1))" by simp
    from new [OF this] Suc show ?thesis by (simp add: add.commute add.left_commute)
  qed
  from eq l o p show ?case by blast
qed

lemma generateVectorData_ok:
  assumes ms1: "makeslice m sizeof_float64 dimensions dimensions = Inr ()"
    and ms2: "makeslice m sizeof_VectorItem 0 limit = Inr ()"
  shows "\<exists>cc data.
     make_centers m 0 dimensions (replicate (length sampleClusters) []) r =
       Inr (cc, r\<lparr>consumed := consumed r + 10 * nat dimensions\<rparr>) \<and>
     generateVectorData m limit dimensions clock r =
       Inr (data, r\<lparr>consumed := consumed r + 10 * nat dimensions
                                 + nat limit * (nat dimensions + 46)\<rparr>) \<and>
     length cc = length sampleClusters \<and>
     (\<forall>k < length sampleClusters. length (cc ! k) = nat dimensions \<and>
        (\<forall>j < nat dimensions. cc ! k ! j =
           float64 (float64 (fst (Float64
             (r\<lparr>consumed := consumed r + k * nat dimensions + j\<rparr>)) * 2) - 1))) \<and>
     length data = nat limit \<and>
     (\<forall>i < nat limit.
        ID (data ! i) = Itoa (int i) \<and> length (Key (data ! i)) = 8 \<and>
        1 \<le> length (Clusters (data ! i)) \<and> length (Clusters (data ! i)) \<le> 3 \<and>
        distinct (Clusters (data ! i)) \<and> set (Clusters (data ! i)) \<subseteq> set sampleClusters \<and>
        length (Vector (data ! i)) = nat dimensions \<and>
        (\<exists>k. find_primary 0 sampleClusters (Clusters (data ! i)) = Inr k \<and> 0 \<le> k \<and>
           k < int (length sampleClusters) \<and> sampleClusters ! nat k = Clusters (data ! i) ! 0 \<and>
           (\<forall>j < nat dimensions. Vector (data ! i) ! j =
              float64 (cc ! nat k ! j +
                float64 (float64 (fst (Float64
                  (r\<lparr>consumed := consumed r + 10 * nat dimensions
                       + i * (nat dimensions + 46) + 10 + j\<rparr>)) * 0.5) - 0.25)))))"
proof -
  let ?d = "nat dimensions"
  let ?r1 = "r\<lparr>consumed := consumed r + 10 * ?d\<rparr>"
  from make_centers_ok [OF ms1, of 0 "replicate (length sampleClusters) []" r]
  obtain cc where
    C: "make_centers m 0 dimensions (replicate (length sampleClusters) []) r = Inr (cc, ?r1)"
    and clen: "length cc = length sampleClusters"
    and cel: "\<And>k. k < length sampleClusters \<Longrightarrow>
        length (cc ! k) = ?d \<and>
        (\<forall>j < ?d. cc ! k ! j =
           float64 (float64 (fst (Float64 (r\<lparr>consumed := consumed r + k * ?d + j\<rparr>)) * 2) - 1))"
    by (auto simp: sampleClusters_facts)
  have clen2: "\<forall>c \<in> set cc. length c = ?d"
    using cel clen by (metis in_set_conv_nth)
  note step = make_item_ok [OF ms1 clen clen2, of _ clock]
  from points_loop_ok [of m dimensions clock cc "?d + 46" _ 0 limit "[]" ?r1, OF step]
  obtain data where
    L: "points_loop m 0 limit dimensions clock cc [] ?r1 =
          Inr (data, ?r1\<lparr>consumed := consumed ?r1 + nat (limit - 0) * (?d + 46)\<rparr>)"
    and dlen: "length data = length ([] :: VectorItemGo list) + nat (limit - 0)"
    and del: "\<And>k. k < nat (limit - 0) \<Longrightarrow>
        ID (data ! (length ([] :: VectorItemGo list) + k)) = Itoa (0 + int k) \<and>
        length (Key (data ! (length ([] :: VectorItemGo list) + k))) = 8 \<and>
        1 \<le> length (Clusters (data ! (length ([] :: VectorItemGo list) + k))) \<and>
        length (Clusters (data ! (length ([] :: VectorItemGo list) + k))) \<le> 3 \<and>
        distinct (Clusters (data ! (length ([] :: VectorItemGo list) + k))) \<and>
        set (Clusters (data ! (length ([] :: VectorItemGo list) + k))) \<subseteq> set sampleClusters \<and>
        length (Vector (data ! (length ([] :: VectorItemGo list) + k))) = ?d \<and>
        (\<exists>ka. find_primary 0 sampleClusters (Clusters (data ! (length ([] :: VectorItemGo list) + k))) = Inr ka \<and>
           0 \<le> ka \<and> ka < int (length sampleClusters) \<and>
           sampleClusters ! nat ka = Clusters (data ! (length ([] :: VectorItemGo list) + k)) ! 0 \<and>
           (\<forall>j < ?d. Vector (data ! (length ([] :: VectorItemGo list) + k)) ! j =
              float64 (cc ! nat ka ! j +
                float64 (float64 (fst (Float64
                  (?r1\<lparr>consumed := consumed ?r1 + k * (?d + 46)\<rparr>
                      \<lparr>consumed := consumed (?r1\<lparr>consumed := consumed ?r1 + k * (?d + 46)\<rparr>) + 10 + j\<rparr>))
                    * 0.5) - 0.25))))"
    by blast
  have st: "?r1\<lparr>consumed := consumed ?r1 + nat (limit - 0) * (?d + 46)\<rparr>
      = r\<lparr>consumed := consumed r + 10 * ?d + nat limit * (?d + 46)\<rparr>"
    by simp
  have G: "generateVectorData m limit dimensions clock r =
      Inr (data, r\<lparr>consumed := consumed r + 10 * ?d + nat limit * (?d + 46)\<rparr>)"
    by (simp only: generateVectorData_def and_then_def C ms2 L st sum.case prod.case)
  from dlen have dlen': "length data = nat limit" by simp
  have del': "ID (data ! i) = Itoa (int i) \<and> length (Key (data ! i)) = 8 \<and>
        1 \<le> length (Clusters (data ! i)) \<and> length (Clusters (data ! i)) \<le> 3 \<and>
        distinct (Clusters (data ! i)) \<and> set (Clusters (data ! i)) \<subseteq> set sampleClusters \<and>
        length (Vector (data ! i)) = ?d \<and>
        (\<exists>k. find_primary 0 sampleClusters (Clusters (data ! i)) = Inr k \<and> 0 \<le> k \<and>
           k < int (length sampleClusters) \<and> sampleClusters ! nat k = Clusters (data ! i) ! 0 \<and>
           (\<forall>j < ?d. Vector (data ! i) ! j =
              float64 (cc ! nat k ! j +
                float64 (float64 (fst (Float64
                  (r\<lparr>consumed := consumed r + 10 * ?d + i * (?d + 46) + 10 + j\<rparr>)) * 0.5) - 0.25))))"
    if "i < nat limit" for i
    using del [of i] that by simp
  from C G clen cel dlen' del' show ?thesis by blast
qed

lemma generateVectorData_fail_dimensions:
  "makeslice m sizeof_float64 dimensions dimensions = Inl e \<Longrightarrow>
   generateVectorData m limit dimensions clock r = Inl e"
  by (simp add: generateVectorData_def and_then_def make_centers_fail sampleClusters_facts)

lemma generateVectorData_fail_limit:
  assumes ms1: "makeslice m sizeof_float64 dimensions dimensions = Inr ()"
    and ms2: "makeslice m sizeof_VectorItem 0 limit = Inl e"
  shows "generateVectorData m limit dimensions clock r = Inl e"
proof -
  from make_centers_ok [OF ms1, of 0 "replicate (length sampleClusters) []" r]
  obtain cc r1 where
    "make_centers m 0 dimensions (replicate (length sampleClusters) []) r = Inr (cc, r1)" by blast
  with ms2 show ?thesis
    by (simp add: generateVectorData_def and_then_def)
qed

lemma generateVectorData_returns:
  assumes "generateVectorData m limit dimensions clock r = Inr res"
  shows "makeslice m sizeof_float64 dimensions dimensions = Inr () \<and>
         makeslice m sizeof_VectorItem 0 limit = Inr ()"
proof -
  have a: "makeslice m sizeof_float64 dimensions dimensions = Inr ()"
  proof (cases "makeslice m sizeof_float64 dimensions dimensions")
    case (Inl e)
    from generateVectorData_fail_dimensions [OF this, of limit clock r] assms show ?thesis by simp
  next
    case (Inr u)
    then show ?thesis by simp
  qed
  have b: "makeslice m sizeof_VectorItem 0 limit = Inr ()"
  proof (cases "makeslice m sizeof_VectorItem 0 limit")
    case (Inl e)
    from generateVectorData_fail_limit [OF a this, of clock r] assms show ?thesis by simp
  next
    case (Inr u)
    then show ?thesis by simp
  qed
  from a b show ?thesis ..
qed

lemma Itoa_examples: "Itoa 0 = ''0'' \<and> Itoa 1 = ''1''"
  by code_simp

text \<open>
  Claim C4, as stated, fails. \<open>make\<close> cannot allocate a slice of every size: with count 0
  and dimensionality \<open>2 ^ 62\<close> the generator ends in the run-time panic ``len out of
  range'' of \<open>make([]float64, dimensions)\<close> (8 bytes times \<open>2 ^ 62\<close> exceeds the address
  space), and with count \<open>2 ^ 63 - 1\<close> and dimensionality 1 it ends in the panic ``cap out
  of range'' of \<open>make([]VectorItem, 0, limit)\<close>; neither call returns a sequence.
\<close>

theorem generator_count_and_length_counterexample:
  "generateVectorData \<lparr>maxAlloc = 2 ^ 48, provides = (\<ge>) (2 ^ 34)\<rparr> 0 (2 ^ 62) id
     \<lparr>draws = id, consumed = 0\<rparr> = Inl MakeSliceLenOutOfRange \<and>
   generateVectorData \<lparr>maxAlloc = 2 ^ 48, provides = (\<ge>) (2 ^ 34)\<rparr> 9223372036854775807 1 id
     \<lparr>draws = id, consumed = 0\<rparr> = Inl MakeSliceCapOutOfRange"
proof -
  let ?m = "\<lparr>maxAlloc = 2 ^ 48, provides = (\<ge>) (2 ^ 34)\<rparr>"
  have "makeslice ?m sizeof_float64 (2 ^ 62) (2 ^ 62) = Inl MakeSliceLenOutOfRange"
    by (simp add: makeslice_def out_of_range_def sizeof_float64_def)
  then have a: "generateVectorData ?m 0 (2 ^ 62) id \<lparr>draws = id, consumed = 0\<rparr>
      = Inl MakeSliceLenOutOfRange"
    by (rule generateVectorData_fail_dimensions)
  have "makeslice ?m sizeof_float64 1 1 = Inr ()"
    by (simp add: makeslice_def out_of_range_def sizeof_float64_def)
  moreover have "makeslice ?m sizeof_VectorItem 0 9223372036854775807 = Inl MakeSliceCapOutOfRange"
    by (simp add: makeslice_def out_of_range_def sizeof_VectorItem_def)
  ultimately have b: "generateVectorData ?m 9223372036854775807 1 id \<lparr>draws = id, consumed = 0\<rparr>
      = Inl MakeSliceCapOutOfRange"
    by (rule generateVectorData_fail_limit)
  from a b show ?thesis ..
qed

text \<open>
  Claim C4, amended. For every count \<open>limit\<close> and dimensionality \<open>d \<ge> 1\<close> for which \<open>make\<close>
  can allocate a \<open>float64\<close> slice of length \<open>d\<close> and a \<open>VectorItem\<close> slice of capacity
  \<open>limit\<close> (which entails \<open>limit \<ge> 0\<close>), the generator returns, without a panic, exactly
  \<open>limit\<close> items, each with a vector of length \<open>d\<close>, in generation order (the ids are the
  decimal texts of 0, 1, ..., \<open>limit - 1\<close> in that order); and where a \<open>float64\<close> slice of
  length 100 can be allocated, \<open>generate(0, 100)\<close> returns the empty sequence.
\<close>

theorem generator_count_and_length:
  "(1 \<le> d \<and> makeslice m sizeof_float64 d d = Inr () \<and>
    makeslice m sizeof_VectorItem 0 limit = Inr () \<longrightarrow>
      (\<exists>data r'. generateVectorData m limit d clock r = Inr (data, r') \<and>
         0 \<le> limit \<and> length data = nat limit \<and>
         (\<forall>item \<in> set data. length (Vector item) = nat d) \<and>
         map ID data = map (\<lambda>i. Itoa (int i)) [0..<nat limit])) \<and>
   (makeslice m sizeof_float64 100 100 = Inr () \<longrightarrow>
      (\<exists>r'. generateVectorData m 0 100 clock r = Inr ([], r')))"
proof (intro conjI impI)
  assume "1 \<le> d \<and> makeslice m sizeof_float64 d d = Inr () \<and>
    makeslice m sizeof_VectorItem 0 limit = Inr ()"
  then have ms: "makeslice m sizeof_float64 d d = Inr ()"
    "makeslice m sizeof_VectorItem 0 limit = Inr ()" by simp_all
  from ms(2) have l0: "0 \<le> limit" by (simp add: makeslice_Inr)
  from generateVectorData_ok [OF ms, of r clock] obtain data r' where
    G: "generateVectorData m limit d clock r = Inr (data, r')"
    and len: "length data = nat limit"
    and el: "\<And>i. i < nat limit \<Longrightarrow> ID (data ! i) = Itoa (int i) \<and> length (Vector (data ! i)) = nat d"
    by blast
  have v: "\<forall>item \<in> set data. length (Vector item) = nat d"
    using el len by (metis in_set_conv_nth)
  have ids: "map ID data = map (\<lambda>i. Itoa (int i)) [0..<nat limit]"
    using el len by (intro nth_equalityI) simp_all
  from G l0 len v ids show "\<exists>data r'. generateVectorData m limit d clock r = Inr (data, r') \<and>
         0 \<le> limit \<and> length data = nat limit \<and>
         (\<forall>item \<in> set data. length (Vector item) = nat d) \<and>
         map ID data = map (\<lambda>i. Itoa (int i)) [0..<nat limit]" by blast
next
  assume ms: "makeslice m sizeof_float64 100 100 = Inr ()"
  have "makeslice m sizeof_VectorItem 0 0 = Inr ()" by (simp add: makeslice_Inr)
  from generateVectorData_ok [OF ms this, of r clock] obtain data0 r0 where
    "generateVectorData m 0 100 clock r = Inr (data0, r0)" "length data0 = nat 0" by blast
  then show "\<exists>r'. generateVectorData m 0 100 clock r = Inr ([], r')" by simp
qed

theorem generator_count_and_length_witness:
  "\<exists>data r'. generateVectorData \<lparr>maxAlloc = 2 ^ 48, provides = (\<ge>) (2 ^ 34)\<rparr> 2 3 id
      \<lparr>draws = id, consumed = 0\<rparr> = Inr (data, r') \<and>
      length data = 2 \<and> map (\<lambda>item. length (Vector item)) data = [3, 3] \<and>
      map ID data = [''0'', ''1'']"
proof -
  let ?m = "\<lparr>maxAlloc = 2 ^ 48, provides = (\<ge>) (2 ^ 34)\<rparr>"
  let ?r = "\<lparr>draws = id, consumed = 0\<rparr>"
  have h: "(1::int) \<le> 3 \<and> makeslice ?m sizeof_float64 3 3 = Inr () \<and>
      makeslice ?m sizeof_VectorItem 0 2 = Inr ()"
    by (simp add: makeslice_def out_of_range_def sizeof_float64_def sizeof_VectorItem_def)
  from generator_count_and_length [of 3 ?m 2 id ?r] h obtain data r' where
    G: "generateVectorData ?m 2 3 id ?r = Inr (data, r')"
    and p: "length data = nat 2" "\<forall>item \<in> set data. length (Vector item) = nat 3"
      "map ID data = map (\<lambda>i. Itoa (int i)) [0..<nat 2]"
    by blast
  from p(1) have len: "length data = 2" by simp
  from p(3) have i: "map ID data = [''0'', ''1'']"
    by (simp add: Itoa_examples upt_rec numeral_2_eq_2)
  from len p(2) have v: "map (\<lambda>item. length (Vector item)) data = [3, 3]"
    by (intro nth_equalityI) (auto simp: less_Suc_eq numeral_2_eq_2)
  from G len v i show ?thesis by (intro exI [of _ data] exI [of _ r'] conjI)
qed

text \<open>
  Claim C5, as stated, fails: the generator has no argument check. With count 0 and
  dimensions 100 it returns the empty sequence, and with count 2 and dimensions 0 it
  returns two items whose vectors are empty; neither call fails.
\<close>

theorem generator_no_validation_counterexample:
  "map_sum id fst (generateVectorData \<lparr>maxAlloc = 2 ^ 48, provides = (\<ge>) (2 ^ 34)\<rparr> 0 100 id
     \<lparr>draws = id, consumed = 0\<rparr>) = Inr [] \<and>
   map_sum id (map Vector \<circ> fst)
     (generateVectorData \<lparr>maxAlloc = 2 ^ 48, provides = (\<ge>) (2 ^ 34)\<rparr> 2 0 id
        \<lparr>draws = id, consumed = 0\<rparr>) = Inr [[], []]"
proof -
  let ?m = "\<lparr>maxAlloc = 2 ^ 48, provides = (\<ge>) (2 ^ 34)\<rparr>"
  let ?r = "\<lparr>draws = id, consumed = 0\<rparr>"
  have "makeslice ?m sizeof_float64 100 100 = Inr ()" "makeslice ?m sizeof_VectorItem 0 0 = Inr ()"
    by (simp_all add: makeslice_def out_of_range_def sizeof_float64_def sizeof_VectorItem_def)
  from generateVectorData_ok [OF this, of ?r id] obtain data r' where
    "generateVectorData ?m 0 100 id ?r = Inr (data, r')" "length data = nat 0" by blast
  then have a: "map_sum id fst (generateVectorData ?m 0 100 id ?r) = Inr []"
    by simp
  have "makeslice ?m sizeof_float64 0 0 = Inr ()" "makeslice ?m sizeof_VectorItem 0 2 = Inr ()"
    by (simp_all add: makeslice_def out_of_range_def sizeof_float64_def sizeof_VectorItem_def)
  from generateVectorData_ok [OF this, of ?r id] obtain data2 r2 where
    G: "generateVectorData ?m 2 0 id ?r = Inr (data2, r2)"
    and len: "length data2 = nat 2"
    and el: "\<And>i. i < nat 2 \<Longrightarrow> length (Vector (data2 ! i)) = nat 0"
    by blast
  have "map Vector data2 = [[], []]"
    using len el by (intro nth_equalityI) (auto simp: less_Suc_eq numeral_2_eq_2)
  with G a show ?thesis by simp
qed

text \<open>
  Claim C5, amended. The generator validates neither argument and has no InvalidArgument
  error. Whenever \<open>make\<close> can allocate a \<open>float64\<close> slice of length \<open>dimensions\<close>, count 0
  returns the empty sequence; whenever \<open>make\<close> can allocate a \<open>VectorItem\<close> slice of
  capacity \<open>count\<close>, dimensions 0 returns \<open>count\<close> items whose vectors are empty; a negative
  dimensions argument ends, whatever the count, in the run-time panic ``len out of range''
  of \<open>make\<close>; and a negative count, with a dimensions argument whose \<open>float64\<close> slice can
  be allocated, ends in the run-time panic ``cap out of range'' of \<open>make\<close>.
\<close>

theorem generator_no_validation:
  "(makeslice m sizeof_float64 dimensions dimensions = Inr () \<longrightarrow>
      (\<exists>r'. generateVectorData m 0 dimensions clock r = Inr ([], r'))) \<and>
   (makeslice m sizeof_VectorItem 0 limit = Inr () \<longrightarrow>
      (\<exists>data r'. generateVectorData m limit 0 clock r = Inr (data, r') \<and>
         length data = nat limit \<and> (\<forall>item \<in> set data. Vector item = []))) \<and>
   (dimensions < 0 \<longrightarrow>
      generateVectorData m limit dimensions clock r = Inl MakeSliceLenOutOfRange) \<and>
   (makeslice m sizeof_float64 dimensions dimensions = Inr () \<and> limit < 0 \<longrightarrow>
      generateVectorData m limit dimensions clock r = Inl MakeSliceCapOutOfRange)"
proof (intro conjI impI)
  assume ms: "makeslice m sizeof_float64 dimensions dimensions = Inr ()"
  have "makeslice m sizeof_VectorItem 0 0 = Inr ()" by (simp add: makeslice_Inr)
  from generateVectorData_ok [OF ms this, of r clock] obtain data r' where
    "generateVectorData m 0 dimensions clock r = Inr (data, r')" "length data = nat 0" by blast
  then show "\<exists>r'. generateVectorData m 0 dimensions clock r = Inr ([], r')" by simp
next
  assume ms: "makeslice m sizeof_VectorItem 0 limit = Inr ()"
  have "makeslice m sizeof_float64 0 0 = Inr ()" by (simp add: makeslice_Inr)
  from generateVectorData_ok [OF this ms, of r clock] obtain data r' where
    G: "generateVectorData m limit 0 clock r = Inr (data, r')"
    and len: "length data = nat limit"
    and el: "\<And>i. i < nat limit \<Longrightarrow> length (Vector (data ! i)) = nat 0"
    by blast
  have "\<forall>item \<in> set data. Vector item = []"
    using el len by (metis in_set_conv_nth length_0_conv nat_0)
  with G len show "\<exists>data r'. generateVectorData m limit 0 clock r = Inr (data, r') \<and>
         length data = nat limit \<and> (\<forall>item \<in> set data. Vector item = [])" by blast
next
  assume "dimensions < 0"
  then have "makeslice m sizeof_float64 dimensions dimensions = Inl MakeSliceLenOutOfRange"
    by (rule makeslice_negative)
  then show "generateVectorData m limit dimensions clock r = Inl MakeSliceLenOutOfRange"
    by (rule generateVectorData_fail_dimensions)
next
  assume a: "makeslice m sizeof_float64 dimensions dimensions = Inr () \<and> limit < 0"
  then have "makeslice m sizeof_VectorItem 0 limit = Inl MakeSliceCapOutOfRange"
    by (simp add: makeslice_def out_of_range_def)
  with a show "generateVectorData m limit dimensions clock r = Inl MakeSliceCapOutOfRange"
    by (simp add: generateVectorData_fail_limit)
qed

theorem generator_no_validation_witness:
  "(\<exists>r'. generateVectorData \<lparr>maxAlloc = 2 ^ 48, provides = (\<ge>) (2 ^ 34)\<rparr> 0 7 id
      \<lparr>draws = id, consumed = 0\<rparr> = Inr ([], r')) \<and>
   (\<exists>data r'. generateVectorData \<lparr>maxAlloc = 2 ^ 48, provides = (\<ge>) (2 ^ 34)\<rparr> 3 0 id
      \<lparr>draws = id, consumed = 0\<rparr> = Inr (data, r') \<and> map Vector data = [[], [], []]) \<and>
   generateVectorData \<lparr>maxAlloc = 2 ^ 48, provides = (\<ge>) (2 ^ 34)\<rparr> 3 (- 1) id
      \<lparr>draws = id, consumed = 0\<rparr> = Inl MakeSliceLenOutOfRange \<and>
   generateVectorData \<lparr>maxAlloc = 2 ^ 48, provides = (\<ge>) (2 ^ 34)\<rparr> (- 1) 7 id
      \<lparr>draws = id, consumed = 0\<rparr> = Inl MakeSliceCapOutOfRange"
proof -
  let ?m = "\<lparr>maxAlloc = 2 ^ 48, provides = (\<ge>) (2 ^ 34)\<rparr>"
  let ?r = "\<lparr>draws = id, consumed = 0\<rparr>"
  have h: "makeslice ?m sizeof_float64 7 7 = Inr ()" "makeslice ?m sizeof_VectorItem 0 3 = Inr ()"
    by (simp_all add: makeslice_def out_of_range_def sizeof_float64_def sizeof_VectorItem_def)
  from generator_no_validation [of ?m 7 id ?r 3] h
  have a: "\<exists>r'. generateVectorData ?m 0 7 id ?r = Inr ([], r')"
    and b: "\<exists>data r'. generateVectorData ?m 3 0 id ?r = Inr (data, r') \<and>
         length data = nat 3 \<and> (\<forall>item \<in> set data. Vector item = [])"
    by simp_all
  from b obtain data r' where
    G: "generateVectorData ?m 3 0 id ?r = Inr (data, r')" and len: "length data = 3"
    and v: "\<forall>item \<in> set data. Vector item = []" by auto
  have "map Vector data = [[], [], []]"
    using len v by (intro nth_equalityI) (auto simp: less_Suc_eq numeral_3_eq_3)
  with G have b': "\<exists>data r'. generateVectorData ?m 3 0 id ?r = Inr (data, r') \<and>
      map Vector data = [[], [], []]" by (intro exI [of _ data] exI [of _ r'] conjI)
  from generator_no_validation [of ?m "- 1" id ?r 3]
  have c: "generateVectorData ?m 3 (- 1) id ?r = Inl MakeSliceLenOutOfRange" by simp
  from generator_no_validation [of ?m 7 id ?r "- 1"] h
  have d: "generateVectorData ?m (- 1) 7 id ?r = Inl MakeSliceCapOutOfRange" by simp
  from a b' c d show ?thesis by (intro conjI)
qed

text \<open>
  Claim C6. Every item of every sequence the generator returns has a cluster list of
  length between 1 and 3, whose entries are pairwise distinct and are names of the
  cluster vocabulary, which has 10 distinct names. Such sequences exist: the
  generator returns \<open>limit\<close> items whenever \<open>make\<close> can allocate its two argument-sized
  slices.
\<close>

theorem generator_clusters:
  "(makeslice m sizeof_float64 dimensions dimensions = Inr () \<and>
    makeslice m sizeof_VectorItem 0 limit = Inr () \<longrightarrow>
      (\<exists>data r'. generateVectorData m limit dimensions clock r = Inr (data, r') \<and>
         length data = nat limit)) \<and>
   (\<forall>data r'. generateVectorData m limit dimensions clock r = Inr (data, r') \<longrightarrow>
      (\<forall>item \<in> set data.
         1 \<le> length (Clusters item) \<and> length (Clusters item) \<le> 3 \<and>
         distinct (Clusters item) \<and> set (Clusters item) \<subseteq> set sampleClusters)) \<and>
   length sampleClusters = 10 \<and> distinct sampleClusters"
proof (intro conjI impI allI)
  assume "makeslice m sizeof_float64 dimensions dimensions = Inr () \<and>
    makeslice m sizeof_VectorItem 0 limit = Inr ()"
  then have "makeslice m sizeof_float64 dimensions dimensions = Inr ()"
    "makeslice m sizeof_VectorItem 0 limit = Inr ()" by simp_all
  from generateVectorData_ok [OF this, of r clock]
  show "\<exists>data r'. generateVectorData m limit dimensions clock r = Inr (data, r') \<and>
         length data = nat limit" by blast
next
  fix data r'
  assume G: "generateVectorData m limit dimensions clock r = Inr (data, r')"
  from generateVectorData_returns [OF G]
  have "makeslice m sizeof_float64 dimensions dimensions = Inr ()"
    "makeslice m sizeof_VectorItem 0 limit = Inr ()" by simp_all
  from generateVectorData_ok [OF this, of r clock] obtain data' r2 where
    G': "generateVectorData m limit dimensions clock r = Inr (data', r2)"
    and len': "length data' = nat limit"
    and el': "\<And>i. i < nat limit \<Longrightarrow>
        1 \<le> length (Clusters (data' ! i)) \<and> length (Clusters (data' ! i)) \<le> 3 \<and>
        distinct (Clusters (data' ! i)) \<and> set (Clusters (data' ! i)) \<subseteq> set sampleClusters"
    by blast
  from G G' have dd: "data' = data" by simp
  show "\<forall>item \<in> set data.
         1 \<le> length (Clusters item) \<and> length (Clusters item) \<le> 3 \<and>
         distinct (Clusters item) \<and> set (Clusters item) \<subseteq> set sampleClusters"
    using el' len' unfolding dd by (metis in_set_conv_nth)
qed (simp_all add: sampleClusters_facts)

theorem generator_clusters_witness:
  "\<exists>data r'. generateVectorData \<lparr>maxAlloc = 2 ^ 48, provides = (\<ge>) (2 ^ 34)\<rparr> 2 3 id
      \<lparr>draws = id, consumed = 0\<rparr> = Inr (data, r') \<and> length data = 2 \<and>
      list_all distinct (map Clusters data) \<and>
      list_all (\<lambda>n. 1 \<le> n) (map (length \<circ> Clusters) data) \<and>
      list_all ((\<ge>) 3) (map (length \<circ> Clusters) data)"
proof -
  let ?m = "\<lparr>maxAlloc = 2 ^ 48, provides = (\<ge>) (2 ^ 34)\<rparr>"
  let ?r = "\<lparr>draws = id, consumed = 0\<rparr>"
  have h: "makeslice ?m sizeof_float64 3 3 = Inr () \<and> makeslice ?m sizeof_VectorItem 0 2 = Inr ()"
    by (simp add: makeslice_def out_of_range_def sizeof_float64_def sizeof_VectorItem_def)
  note t = generator_clusters [of ?m 3 2 id ?r]
  from t h obtain data r' where
    G: "generateVectorData ?m 2 3 id ?r = Inr (data, r')" and len: "length data = nat 2"
    by blast
  from t G have "\<forall>item \<in> set data.
         1 \<le> length (Clusters item) \<and> length (Clusters item) \<le> 3 \<and>
         distinct (Clusters item) \<and> set (Clusters item) \<subseteq> set sampleClusters"
    by blast
  then have "list_all distinct (map Clusters data) \<and>
      list_all (\<lambda>n. 1 \<le> n) (map (length \<circ> Clusters) data) \<and>
      list_all ((\<ge>) 3) (map (length \<circ> Clusters) data)"
    by (simp add: list_all_iff)
  with G len show ?thesis by (intro exI [of _ data] exI [of _ r']) simp
qed

text \<open>
  Claim C7. For every item \<open>i\<close> the generator returns there is an index \<open>k\<close> of the
  vocabulary with \<open>sampleClusters[k] = clusters[0]\<close> such that every component \<open>j\<close> of
  the item's vector is the \<open>float64\<close> sum of component \<open>j\<close> of center \<open>k\<close> and a noise
  value. The center component is \<open>Float64() * 2 - 1\<close>, computed in \<open>float64\<close> from draw
  number \<open>k * dimensions + j\<close> of the generator's random source, and lies in \<open>[-1, 1]\<close>;
  the noise is \<open>Float64() * 0.5 - 0.25\<close>, computed in \<open>float64\<close> from a draw of its own,
  number \<open>10 * dimensions + i * (dimensions + 46) + 10 + j\<close>, and lies in
  \<open>[-0.25, 0.25]\<close>; so the component lies in \<open>[-1.25, 1.25]\<close>. Such items exist:
  the generator returns \<open>limit\<close> items whenever \<open>make\<close> can allocate its two
  argument-sized slices.
\<close>

theorem generator_vector_bounds:
  "(makeslice m sizeof_float64 dimensions dimensions = Inr () \<and>
    makeslice m sizeof_VectorItem 0 limit = Inr () \<longrightarrow>
      (\<exists>data r'. generateVectorData m limit dimensions clock r = Inr (data, r') \<and>
         length data = nat limit)) \<and>
   (\<forall>data r'. generateVectorData m limit dimensions clock r = Inr (data, r') \<longrightarrow>
      (\<exists>cc r1.
         make_centers m 0 dimensions (replicate (length sampleClusters) []) r = Inr (cc, r1) \<and>
         (\<forall>i < length data. \<exists>k < length sampleClusters.
            sampleClusters ! k = Clusters (data ! i) ! 0 \<and>
            length (Vector (data ! i)) = nat dimensions \<and> length (cc ! k) = nat dimensions \<and>
            (\<forall>j < nat dimensions.
               cc ! k ! j =
                 float64 (float64 (fst (Float64
                   (r\<lparr>consumed := consumed r + k * nat dimensions + j\<rparr>)) * 2) - 1) \<and>
               Vector (data ! i) ! j =
                 float64 (cc ! k ! j +
                   float64 (float64 (fst (Float64
                     (r\<lparr>consumed := consumed r + 10 * nat dimensions
                          + i * (nat dimensions + 46) + 10 + j\<rparr>)) * 0.5) - 0.25)) \<and>
               - 1 \<le> cc ! k ! j \<and> cc ! k ! j \<le> 1 \<and>
               - 0.25 \<le> float64 (float64 (fst (Float64
                     (r\<lparr>consumed := consumed r + 10 * nat dimensions
                          + i * (nat dimensions + 46) + 10 + j\<rparr>)) * 0.5) - 0.25) \<and>
               float64 (float64 (fst (Float64
                     (r\<lparr>consumed := consumed r + 10 * nat dimensions
                          + i * (nat dimensions + 46) + 10 + j\<rparr>)) * 0.5) - 0.25) \<le> 0.25 \<and>
               - 1.25 \<le> Vector (data ! i) ! j \<and> Vector (data ! i) ! j \<le> 1.25))))"
proof (intro conjI impI allI)
  assume "makeslice m sizeof_float64 dimensions dimensions = Inr () \<and>
    makeslice m sizeof_VectorItem 0 limit = Inr ()"
  then have "makeslice m sizeof_float64 dimensions dimensions = Inr ()"
    "makeslice m sizeof_VectorItem 0 limit = Inr ()" by simp_all
  from generateVectorData_ok [OF this, of r clock]
  show "\<exists>data r'. generateVectorData m limit dimensions clock r = Inr (data, r') \<and>
         length data = nat limit" by blast
next
  fix data r'
  assume G: "generateVectorData m limit dimensions clock r = Inr (data, r')"
  let ?d = "nat dimensions"
  let ?F = "\<lambda>n. fst (Float64 (r\<lparr>consumed := consumed r + n\<rparr>))"
  let ?noise = "\<lambda>i j. float64 (float64 (?F (10 * ?d + i * (?d + 46) + 10 + j) * 0.5) - 0.25)"
  from generateVectorData_returns [OF G]
  have "makeslice m sizeof_float64 dimensions dimensions = Inr ()"
    "makeslice m sizeof_VectorItem 0 limit = Inr ()" by simp_all
  from generateVectorData_ok [OF this, of r clock] obtain cc data' where
    C: "make_centers m 0 dimensions (replicate (length sampleClusters) []) r =
       Inr (cc, r\<lparr>consumed := consumed r + 10 * ?d\<rparr>)"
    and G': "generateVectorData m limit dimensions clock r =
       Inr (data', r\<lparr>consumed := consumed r + 10 * ?d + nat limit * (?d + 46)\<rparr>)"
    and cel: "\<forall>k < length sampleClusters. length (cc ! k) = ?d \<and>
        (\<forall>j < ?d. cc ! k ! j = float64 (float64 (?F (k * ?d + j) * 2) - 1))"
    and len': "length data' = nat limit"
    and el': "\<forall>i < nat limit.
        ID (data' ! i) = Itoa (int i) \<and> length (Key (data' ! i)) = 8 \<and>
        1 \<le> length (Clusters (data' ! i)) \<and> length (Clusters (data' ! i)) \<le> 3 \<and>
        distinct (Clusters (data' ! i)) \<and> set (Clusters (data' ! i)) \<subseteq> set sampleClusters \<and>
        length (Vector (data' ! i)) = ?d \<and>
        (\<exists>k. find_primary 0 sampleClusters (Clusters (data' ! i)) = Inr k \<and> 0 \<le> k \<and>
           k < int (length sampleClusters) \<and> sampleClusters ! nat k = Clusters (data' ! i) ! 0 \<and>
           (\<forall>j < ?d. Vector (data' ! i) ! j = float64 (cc ! nat k ! j + ?noise i j)))"
    by (auto simp: add.assoc)
  from G G' have dd: "data' = data" by simp
  note len = len' [unfolded dd]
  have "\<exists>k < length sampleClusters.
            sampleClusters ! k = Clusters (data ! i) ! 0 \<and>
            length (Vector (data ! i)) = ?d \<and> length (cc ! k) = ?d \<and>
            (\<forall>j < ?d.
               cc ! k ! j = float64 (float64 (?F (k * ?d + j) * 2) - 1) \<and>
               Vector (data ! i) ! j = float64 (cc ! k ! j + ?noise i j) \<and>
               - 1 \<le> cc ! k ! j \<and> cc ! k ! j \<le> 1 \<and>
               - 0.25 \<le> ?noise i j \<and> ?noise i j \<le> 0.25 \<and>
               - 1.25 \<le> Vector (data ! i) ! j \<and> Vector (data ! i) ! j \<le> 1.25)"
    if i: "i < length data" for i
  proof -
    from i len have "i < nat limit" by simp
    from el' [unfolded dd, rule_format, OF this] obtain k where
      vl: "length (Vector (data ! i)) = ?d"
      and k: "0 \<le> k" "k < int (length sampleClusters)" "sampleClusters ! nat k = Clusters (data ! i) ! 0"
      and v: "\<forall>j < ?d. Vector (data ! i) ! j = float64 (cc ! nat k ! j + ?noise i j)"
      by blast
    from k have kk: "nat k < length sampleClusters" by simp
    from cel [rule_format, OF kk] have cl: "length (cc ! nat k) = ?d"
      and ce: "\<forall>j < ?d. cc ! nat k ! j = float64 (float64 (?F (nat k * ?d + j) * 2) - 1)"
      by simp_all
    have "cc ! nat k ! j = float64 (float64 (?F (nat k * ?d + j) * 2) - 1) \<and>
               Vector (data ! i) ! j = float64 (cc ! nat k ! j + ?noise i j) \<and>
               - 1 \<le> cc ! nat k ! j \<and> cc ! nat k ! j \<le> 1 \<and>
               - 0.25 \<le> ?noise i j \<and> ?noise i j \<le> 0.25 \<and>
               - 1.25 \<le> Vector (data ! i) ! j \<and> Vector (data ! i) ! j \<le> 1.25"
      if j: "j < ?d" for j
    proof -
      note c = ce [rule_format, OF j]
      note w = v [rule_format, OF j]
      have fc: "0 \<le> ?F (nat k * ?d + j)" "?F (nat k * ?d + j) < 1"
        using Float64_range [of "r\<lparr>consumed := consumed r + (nat k * ?d + j)\<rparr>"] by simp_all
      have fn: "0 \<le> ?F (10 * ?d + i * (?d + 46) + 10 + j)" "?F (10 * ?d + i * (?d + 46) + 10 + j) < 1"
        using Float64_range [of "r\<lparr>consumed := consumed r + (10 * ?d + i * (?d + 46) + 10 + j)\<rparr>"]
        by simp_all
      from center_value_range [OF fc] c
      have cb: "- 1 \<le> cc ! nat k ! j" "cc ! nat k ! j \<le> 1" by simp_all
      from noise_value_range [OF fn]
      have nb: "- 0.25 \<le> ?noise i j" "?noise i j \<le> 0.25" by simp_all
      from sum_value_range [OF cb nb] w
      have vb: "- 1.25 \<le> Vector (data ! i) ! j" "Vector (data ! i) ! j \<le> 1.25" by simp_all
      from c w cb nb vb show ?thesis by (intro conjI)
    qed
    with kk k(3) vl cl show ?thesis by blast
  qed
  then have "\<forall>i < length data. \<exists>k < length sampleClusters.
            sampleClusters ! k = Clusters (data ! i) ! 0 \<and>
            length (Vector (data ! i)) = ?d \<and> length (cc ! k) = ?d \<and>
            (\<forall>j < ?d.
               cc ! k ! j = float64 (float64 (?F (k * ?d + j) * 2) - 1) \<and>
               Vector (data ! i) ! j = float64 (cc ! k ! j + ?noise i j) \<and>
               - 1 \<le> cc ! k ! j \<and> cc ! k ! j \<le> 1 \<and>
               - 0.25 \<le> ?noise i j \<and> ?noise i j \<le> 0.25 \<and>
               - 1.25 \<le> Vector (data ! i) ! j \<and> Vector (data ! i) ! j \<le> 1.25)"
    by blast
  with C show "\<exists>cc r1.
         make_centers m 0 dimensions (replicate (length sampleClusters) []) r = Inr (cc, r1) \<and>
         (\<forall>i < length data. \<exists>k < length sampleClusters.
            sampleClusters ! k = Clusters (data ! i) ! 0 \<and>
            length (Vector (data ! i)) = nat dimensions \<and> length (cc ! k) = nat dimensions \<and>
            (\<forall>j < nat dimensions.
               cc ! k ! j =
                 float64 (float64 (fst (Float64
                   (r\<lparr>consumed := consumed r + k * nat dimensions + j\<rparr>)) * 2) - 1) \<and>
               Vector (data ! i) ! j =
                 float64 (cc ! k ! j +
                   float64 (float64 (fst (Float64
                     (r\<lparr>consumed := consumed r + 10 * nat dimensions
                          + i * (nat dimensions + 46) + 10 + j\<rparr>)) * 0.5) - 0.25)) \<and>
               - 1 \<le> cc ! k ! j \<and> cc ! k ! j \<le> 1 \<and>
               - 0.25 \<le> float64 (float64 (fst (Float64
                     (r\<lparr>consumed := consumed r + 10 * nat dimensions
                          + i * (nat dimensions + 46) + 10 + j\<rparr>)) * 0.5) - 0.25) \<and>
               float64 (float64 (fst (Float64
                     (r\<lparr>consumed := consumed r + 10 * nat dimensions
                          + i * (nat dimensions + 46) + 10 + j\<rparr>)) * 0.5) - 0.25) \<le> 0.25 \<and>
               - 1.25 \<le> Vector (data ! i) ! j \<and> Vector (data ! i) ! j \<le> 1.25))"
    by (intro exI [of _ cc] exI [of _ "r\<lparr>consumed := consumed r + 10 * ?d\<rparr>"] conjI)
      (simp_all add: add.assoc)
qed

theorem generator_vector_bounds_witness:
  "\<exists>data r'. generateVectorData \<lparr>maxAlloc = 2 ^ 48, provides = (\<ge>) (2 ^ 34)\<rparr> 1 2 id
      \<lparr>draws = id, consumed = 0\<rparr> = Inr (data, r') \<and> length data = 1 \<and>
      length (Vector (data ! 0)) = 2 \<and>
      - 1.25 \<le> Vector (data ! 0) ! 0 \<and> Vector (data ! 0) ! 0 \<le> 1.25 \<and>
      - 1.25 \<le> Vector (data ! 0) ! 1 \<and> Vector (data ! 0) ! 1 \<le> 1.25"
proof -
  let ?m = "\<lparr>maxAlloc = 2 ^ 48, provides = (\<ge>) (2 ^ 34)\<rparr>"
  let ?r = "\<lparr>draws = id, consumed = 0\<rparr>"
  have h: "makeslice ?m sizeof_float64 2 2 = Inr () \<and> makeslice ?m sizeof_VectorItem 0 1 = Inr ()"
    by (simp add: makeslice_def out_of_range_def sizeof_float64_def sizeof_VectorItem_def)
  note t = generator_vector_bounds [of ?m 2 1 id ?r]
  from t h obtain data r' where
    G: "generateVectorData ?m 1 2 id ?r = Inr (data, r')" and len: "length data = nat 1"
    by blast
  from t G obtain cc where
    b: "\<forall>i < length data. \<exists>k < length sampleClusters.
       sampleClusters ! k = Clusters (data ! i) ! 0 \<and>
       length (Vector (data ! i)) = nat 2 \<and> length (cc ! k) = nat 2 \<and>
       (\<forall>j < nat 2.
               cc ! k ! j =
                 float64 (float64 (fst (Float64
                   (?r\<lparr>consumed := consumed ?r + k * nat 2 + j\<rparr>)) * 2) - 1) \<and>
               Vector (data ! i) ! j =
                 float64 (cc ! k ! j +
                   float64 (float64 (fst (Float64
                     (?r\<lparr>consumed := consumed ?r + 10 * nat 2
                          + i * (nat 2 + 46) + 10 + j\<rparr>)) * 0.5) - 0.25)) \<and>
               - 1 \<le> cc ! k ! j \<and> cc ! k ! j \<le> 1 \<and>
               - 0.25 \<le> float64 (float64 (fst (Float64
                     (?r\<lparr>consumed := consumed ?r + 10 * nat 2
                          + i * (nat 2 + 46) + 10 + j\<rparr>)) * 0.5) - 0.25) \<and>
               float64 (float64 (fst (Float64
                     (?r\<lparr>consumed := consumed ?r + 10 * nat 2
                          + i * (nat 2 + 46) + 10 + j\<rparr>)) * 0.5) - 0.25) \<le> 0.25 \<and>
               - 1.25 \<le> Vector (data ! i) ! j \<and> Vector (data ! i) ! j \<le> 1.25)"
    by blast
  from len have "0 < length data" by simp
  from b [rule_format, OF this] obtain k where
    vl: "length (Vector (data ! 0)) = nat 2"
    and vb: "\<forall>j < nat 2. - 1.25 \<le> Vector (data ! 0) ! j \<and> Vector (data ! 0) ! j \<le> 1.25"
    by blast
  have "(0::nat) < nat 2" "(1::nat) < nat 2" by simp_all
  from vb [rule_format, OF this(1)] vb [rule_format, OF this(2)] vl len G
  show ?thesis by (intro exI [of _ data] exI [of _ r']) simp
qed

text \<open>
  Claim C9. In every item generation step, from any state of the random source, the
  cluster selection returns a non-empty list of vocabulary names, so \<open>clusters[0]\<close>
  exists; the search for it in the vocabulary returns an index \<open>k\<close> with
  \<open>0 \<le> k < 10\<close>, never \<open>-1\<close>; and indexing any array of one center per vocabulary name
  at \<open>k\<close> is in bounds. Hence no call of the generator ends in an index-out-of-range
  panic.
\<close>

theorem primary_cluster_found:
  "(\<exists>cs r1 k.
      getRandomItems sampleClusters 1 3 r = Inr (cs, r1) \<and>
      cs \<noteq> [] \<and> index cs 0 = Inr (cs ! 0) \<and> set cs \<subseteq> set sampleClusters \<and>
      find_primary 0 sampleClusters cs = Inr k \<and>
      k \<noteq> - 1 \<and> 0 \<le> k \<and> k < int (length sampleClusters) \<and>
      sampleClusters ! nat k = cs ! 0 \<and>
      (\<forall>clusterCenters :: real list list. length clusterCenters = length sampleClusters \<longrightarrow>
         index clusterCenters k = Inr (clusterCenters ! nat k))) \<and>
   generateVectorData m limit dimensions clock r \<noteq> Inl IndexOutOfRange"
proof
  have "(0::int) \<le> 1" "(1::int) \<le> 3" "3 \<le> int (length sampleClusters)"
    by (simp_all add: sampleClusters_facts)
  from getRandomItems_eq [OF this, of r] obtain zs r1 n where
    G: "getRandomItems sampleClusters 1 3 r = Inr (take n zs, r1)"
    and M: "mset zs = mset sampleClusters" and n: "1 \<le> int n" "int n \<le> 3"
    by blast
  let ?cs = "take n zs"
  from M have zlen: "length zs = 10" and zset: "set zs = set sampleClusters"
    using mset_eq_length [OF M] mset_eq_setD [OF M] by (simp_all add: sampleClusters_facts)
  from n zlen have ne: "?cs \<noteq> []" by auto
  then have i0: "index ?cs 0 = Inr (?cs ! 0)" by (simp add: index_def)
  have csub: "set ?cs \<subseteq> set sampleClusters"
    using zset set_take_subset [of n zs] by simp
  from ne csub have "?cs ! 0 \<in> set sampleClusters"
    by (metis length_greater_0_conv nth_mem subsetD)
  from find_primary_found [OF ne this, of 0] obtain k where
    k: "find_primary 0 sampleClusters ?cs = Inr k" "0 \<le> k" "k < int (length sampleClusters)"
       "sampleClusters ! nat k = ?cs ! 0"
    by auto
  have "\<forall>clusterCenters :: real list list. length clusterCenters = length sampleClusters \<longrightarrow>
         index clusterCenters k = Inr (clusterCenters ! nat k)"
    using k(2,3) by (simp add: index_def)
  moreover from k(2) have "k \<noteq> - 1" by simp
  ultimately show "\<exists>cs r1 k.
      getRandomItems sampleClusters 1 3 r = Inr (cs, r1) \<and>
      cs \<noteq> [] \<and> index cs 0 = Inr (cs ! 0) \<and> set cs \<subseteq> set sampleClusters \<and>
      find_primary 0 sampleClusters cs = Inr k \<and>
      k \<noteq> - 1 \<and> 0 \<le> k \<and> k < int (length sampleClusters) \<and>
      sampleClusters ! nat k = cs ! 0 \<and>
      (\<forall>clusterCenters :: real list list. length clusterCenters = length sampleClusters \<longrightarrow>
         index clusterCenters k = Inr (clusterCenters ! nat k))"
    using G ne i0 csub k by blast
next
  show "generateVectorData m limit dimensions clock r \<noteq> Inl IndexOutOfRange"
  proof (cases "makeslice m sizeof_float64 dimensions dimensions")
    case (Inl e)
    with makeslice_not_index [of m sizeof_float64 dimensions dimensions]
    have "e \<noteq> IndexOutOfRange" by auto
    with generateVectorData_fail_dimensions [OF Inl, of limit clock r] show ?thesis by simp
  next
    case (Inr u)
    then have ms1: "makeslice m sizeof_float64 dimensions dimensions = Inr ()" by simp
    show ?thesis
    proof (cases "makeslice m sizeof_VectorItem 0 limit")
      case (Inl e)
      with makeslice_not_index [of m sizeof_VectorItem 0 limit]
      have "e \<noteq> IndexOutOfRange" by auto
      with generateVectorData_fail_limit [OF ms1 Inl, of clock r] show ?thesis by simp
    next
      case (Inr v)
      then have "makeslice m sizeof_VectorItem 0 limit = Inr ()" by simp
      from generateVectorData_ok [OF ms1 this, of r clock] show ?thesis by auto
    qed
  qed
qed

lemma getRandomItems_example:
  "map_sum id fst (getRandomItems sampleClusters 1 3 \<lparr>draws = (\<lambda>n. 5 * n + 3), consumed = 0\<rparr>)
     = Inr [''Group F''] \<and>
   find_primary 0 sampleClusters [''Group F''] = Inr 5"
  by code_simp

theorem primary_cluster_found_witness:
  "map_sum id fst (getRandomItems sampleClusters 1 3 \<lparr>draws = (\<lambda>n. 5 * n + 3), consumed = 0\<rparr>)
     = Inr [''Group F''] \<and>
   find_primary 0 sampleClusters [''Group F''] = Inr 5 \<and>
   index (replicate (length sampleClusters) [0::real]) 5 = Inr [0]"
proof -
  let ?r = "\<lparr>draws = (\<lambda>n. 5 * n + 3), consumed = 0\<rparr>"
  from primary_cluster_found [of ?r "\<lparr>maxAlloc = 2 ^ 48, provides = (\<ge>) (2 ^ 34)\<rparr>" 1 3 id]
  obtain cs r1 k where
    G: "getRandomItems sampleClusters 1 3 ?r = Inr (cs, r1)"
    and k: "find_primary 0 sampleClusters cs = Inr k" "0 \<le> k" "k < int (length sampleClusters)"
    and ix: "\<forall>clusterCenters :: real list list. length clusterCenters = length sampleClusters \<longrightarrow>
         index clusterCenters k = Inr (clusterCenters ! nat k)"
    by blast
  from G getRandomItems_example have cs: "cs = [''Group F'']" by simp
  with k(1) getRandomItems_example have k5: "k = 5" by simp
  from ix have "index (replicate (length sampleClusters) [0::real]) k
      = Inr (replicate (length sampleClusters) [0] ! nat k)" by simp
  with k5 k(3) have "index (replicate (length sampleClusters) [0::real]) 5 = Inr [0]"
    by simp
  with getRandomItems_example show ?thesis by simp
qed

section \<open>Properties of the HTTP handler\<close>

lemma is_digit_iff: "is_digit c \<longleftrightarrow> c \<in> set ''0123456789''"
  by (cases c) (auto simp: is_digit_def)

lemma all_digits_iff: "list_all is_digit ds \<longleftrightarrow> set ds \<subseteq> set ''0123456789''"
  unfolding list_all_iff is_digit_iff by blast

lemma sign_not_digit: "\<not> is_digit CHR ''-''" "\<not> is_digit CHR ''+''"
  by (simp_all add: is_digit_def)

lemma Atoi_unsigned:
  assumes "ds \<noteq> []" "list_all is_digit ds"
  shows "Atoi ds = (if int (digits_value ds) \<ge> 2 ^ 63 then (2 ^ 63 - 1, Some ErrRange)
                    else (int (digits_value ds), None))"
proof -
  from assms obtain c cs where ds: "ds = c # cs" and c: "is_digit c"
    by (cases ds) auto
  from c sign_not_digit have "c \<noteq> CHR ''-''" "c \<noteq> CHR ''+''" by auto
  with assms show ?thesis
    unfolding ds by (simp add: Atoi_def Let_def)
qed

lemma Atoi_plus:
  assumes "ds \<noteq> []" "list_all is_digit ds"
  shows "Atoi (CHR ''+'' # ds) = (if int (digits_value ds) \<ge> 2 ^ 63 then (2 ^ 63 - 1, Some ErrRange)
                    else (int (digits_value ds), None))"
  using assms by (simp add: Atoi_def Let_def)

lemma Atoi_minus:
  assumes "ds \<noteq> []" "list_all is_digit ds"
  shows "Atoi (CHR ''-'' # ds) = (if int (digits_value ds) > 2 ^ 63 then (- (2 ^ 63), Some ErrRange)
                    else (- int (digits_value ds), None))"
  using assms by (simp add: Atoi_def Let_def)

lemma Atoi_syntax:
  assumes "\<not> (\<exists>ds. ds \<noteq> [] \<and> list_all is_digit ds \<and>
                  (s = ds \<or> s = CHR ''+'' # ds \<or> s = CHR ''-'' # ds))"
  shows "Atoi s = (0, Some ErrSyntax)"
proof (cases s)
  case Nil
  then show ?thesis by (simp add: Atoi_def)
next
  case (Cons c cs)
  show ?thesis
  proof (cases "c = CHR ''-'' \<or> c = CHR ''+''")
    case True
    with assms Cons have "cs = [] \<or> \<not> list_all is_digit cs" by auto
    with True Cons show ?thesis by (auto simp: Atoi_def Let_def)
  next
    case False
    have "\<not> list_all is_digit s"
    proof
      assume "list_all is_digit s"
      with assms Cons have "s = []" by blast
      with Cons show False by simp
    qed
    with False Cons show ?thesis by (auto simp: Atoi_def Let_def)
  qed
qed

lemma Atoi_ok_iff:
  "snd (Atoi s) = None \<longleftrightarrow>
     (\<exists>ds. ds \<noteq> [] \<and> set ds \<subseteq> set ''0123456789'' \<and>
        ((s = ds \<or> s = CHR ''+'' # ds) \<and> int (digits_value ds) < 2 ^ 63 \<or>
         s = CHR ''-'' # ds \<and> int (digits_value ds) \<le> 2 ^ 63))"
proof
  assume ok: "snd (Atoi s) = None"
  show "\<exists>ds. ds \<noteq> [] \<and> set ds \<subseteq> set ''0123456789'' \<and>
        ((s = ds \<or> s = CHR ''+'' # ds) \<and> int (digits_value ds) < 2 ^ 63 \<or>
         s = CHR ''-'' # ds \<and> int (digits_value ds) \<le> 2 ^ 63)"
  proof (rule ccontr)
    assume no: "\<not> ?thesis"
    show False
    proof (cases "\<exists>ds. ds \<noteq> [] \<and> list_all is_digit ds \<and>
                  (s = ds \<or> s = CHR ''+'' # ds \<or> s = CHR ''-'' # ds)")
      case False
      from Atoi_syntax [OF this] ok show False by simp
    next
      case True
      then obtain ds where ds: "ds \<noteq> []" "list_all is_digit ds"
        and s: "s = ds \<or> s = CHR ''+'' # ds \<or> s = CHR ''-'' # ds" by blast
      from ds(2) have sub: "set ds \<subseteq> set ''0123456789''" by (simp only: all_digits_iff)
      from s show False
      proof (elim disjE)
        assume e: "s = ds"
        with no ds(1) sub have "\<not> int (digits_value ds) < 2 ^ 63" by blast
        with ok Atoi_unsigned [OF ds] e show False by simp
      next
        assume e: "s = CHR ''+'' # ds"
        with no ds(1) sub have "\<not> int (digits_value ds) < 2 ^ 63" by blast
        with ok Atoi_plus [OF ds] e show False by simp
      next
        assume e: "s = CHR ''-'' # ds"
        with no ds(1) sub have "\<not> int (digits_value ds) \<le> 2 ^ 63" by blast
        with ok Atoi_minus [OF ds] e show False by simp
      qed
    qed
  qed
next
  assume "\<exists>ds. ds \<noteq> [] \<and> set ds \<subseteq> set ''0123456789'' \<and>
        ((s = ds \<or> s = CHR ''+'' # ds) \<and> int (digits_value ds) < 2 ^ 63 \<or>
         s = CHR ''-'' # ds \<and> int (digits_value ds) \<le> 2 ^ 63)"
  then obtain ds where ds: "ds \<noteq> []" "set ds \<subseteq> set ''0123456789''"
    and s: "(s = ds \<or> s = CHR ''+'' # ds) \<and> int (digits_value ds) < 2 ^ 63 \<or>
         s = CHR ''-'' # ds \<and> int (digits_value ds) \<le> 2 ^ 63" by blast
  from ds(2) have d: "list_all is_digit ds" by (simp only: all_digits_iff)
  from s show "snd (Atoi s) = None"
    using Atoi_unsigned [OF ds(1) d] Atoi_plus [OF ds(1) d] Atoi_minus [OF ds(1) d] by auto
qed

lemma digits_value_snoc:
  "digits_value (ds @ [c]) = digits_value ds * 10 + ((of_char c :: nat) - 48)"
  by (simp add: digits_value_def)

lemma digit_char: "k < 10 \<Longrightarrow> is_digit (char_of (48 + k)) \<and> (of_char (char_of (48 + k) :: char) :: nat) - 48 = k"
  by (simp add: is_digit_def)

lemma digits_props:
  "digits n \<noteq> [] \<and> list_all is_digit (digits n) \<and> digits_value (digits n) = n"
proof (induction n rule: digits.induct)
  case (1 n)
  show ?case
  proof (cases "n < 10")
    case True
    with digit_char [of n] show ?thesis
      by (subst (1 2 3) digits.simps) (simp add: digits_value_def)
  next
    case False
    have m: "n mod 10 < 10" by simp
    from "1.IH" [OF False] digit_char [OF m] False show ?thesis
      by (subst (1 2 3) digits.simps) (simp add: digits_value_snoc)
  qed
qed

lemma Atoi_Itoa:
  assumes "- (2 ^ 63) \<le> n" "n < 2 ^ 63"
  shows "Atoi (Itoa n) = (n, None)"
proof (cases "n < 0")
  case True
  let ?ds = "digits (nat (- n))"
  from digits_props [of "nat (- n)"] have d: "?ds \<noteq> []" "list_all is_digit ?ds"
    and v: "int (digits_value ?ds) = - n" using True by simp_all
  from Atoi_minus [OF d] v assms True show ?thesis by (simp add: Itoa_def)
next
  case False
  let ?ds = "digits (nat n)"
  from digits_props [of "nat n"] have d: "?ds \<noteq> []" "list_all is_digit ?ds"
    and v: "int (digits_value ?ds) = n" using False by simp_all
  from Atoi_unsigned [OF d] v assms False show ?thesis by (simp add: Itoa_def)
qed

lemma parse_params_positive:
  "0 < fst (parse_params limitStr dimensionsStr) \<and> 0 < snd (parse_params limitStr dimensionsStr)"
  by (simp add: parse_params_def Let_def split: prod.splits)


lemma parse_params_default:
  "(limitStr = [] \<or> snd (Atoi limitStr) \<noteq> None \<or> fst (Atoi limitStr) \<le> 0 \<longrightarrow>
      fst (parse_params limitStr dimensionsStr) = 500) \<and>
   (dimensionsStr = [] \<or> snd (Atoi dimensionsStr) \<noteq> None \<or> fst (Atoi dimensionsStr) \<le> 0 \<longrightarrow>
      snd (parse_params limitStr dimensionsStr) = 100)"
  by (auto simp: parse_params_def Let_def split: prod.splits)

lemma handleVectorData_GET:
  assumes get: "Method req = ''GET''"
    and p: "parse_params (query_get (Query req) ''limit'') (query_get (Query req) ''dimensions'')
              = (limit, dimensions)"
    and ms: "makeslice m sizeof_float64 dimensions dimensions = Inr ()"
      "makeslice m sizeof_VectorItem 0 limit = Inr ()"
  shows "\<exists>data r'.
         handleVectorData m req clock r =
           Inr (\<lparr> status = 200,
                   headers = cors_headers @ [(''Content-Type'', ''application/json'')],
                   content = JsonBody data (int (length data)) \<rparr>, r') \<and>
         int (length data) = limit \<and>
         (\<forall>item \<in> set data. length (Vector item) = nat dimensions)"
proof -
  from ms(2) have l0: "0 \<le> limit" by (simp add: makeslice_Inr)
  from generateVectorData_ok [OF ms, of r clock] obtain data r' where
    G: "generateVectorData m limit dimensions clock r = Inr (data, r')"
    and len: "length data = nat limit"
    and el: "\<And>i. i < nat limit \<Longrightarrow> length (Vector (data ! i)) = nat dimensions"
    by blast
  have v: "\<forall>item \<in> set data. length (Vector item) = nat dimensions"
    using el len by (metis in_set_conv_nth)
  have "handleVectorData m req clock r =
           Inr (\<lparr> status = 200,
                   headers = cors_headers @ [(''Content-Type'', ''application/json'')],
                   content = JsonBody data (int (length data)) \<rparr>, r')"
    using get by (simp add: handleVectorData_def p G and_then_def)
  moreover have "int (length data) = limit" using len l0 by simp
  ultimately show ?thesis using v by blast
qed

lemma handleVectorData_huge_limit:
  assumes "makeslice m sizeof_float64 100 100 = Inr ()"
  shows "handleVectorData m \<lparr>Method = ''GET'', Query = [(''limit'', ''9223372036854775807'')]\<rparr>
           clock r = Inl MakeSliceCapOutOfRange"
proof -
  have a: "Atoi ''9223372036854775807'' = (9223372036854775807, None)"
    by (simp add: Atoi_def Let_def is_digit_def digits_value_def)
  have p: "parse_params (query_get [(''limit'', ''9223372036854775807'')] ''limit'')
             (query_get [(''limit'', ''9223372036854775807'')] ''dimensions'')
           = (9223372036854775807, 100)"
    by (simp add: parse_params_def query_get_def a)
  have "makeslice m sizeof_VectorItem 0 9223372036854775807 = Inl MakeSliceCapOutOfRange"
    by (simp add: makeslice_def out_of_range_def sizeof_VectorItem_def)
  from generateVectorData_fail_limit [OF assms this, of clock r] p show ?thesis
    by (simp add: handleVectorData_def and_then_def)
qed

lemma Atoi_examples:
  "Atoi ''abc'' = (0, Some ErrSyntax) \<and> Atoi ''-5'' = (- 5, None) \<and> Atoi ''0'' = (0, None) \<and>
   Atoi ''99999999999999999999'' = (9223372036854775807, Some ErrRange) \<and>
   Atoi ''25'' = (25, None)"
  by (simp add: Atoi_def Let_def is_digit_def digits_value_def)

lemma Atoi_positive:
  assumes "s \<noteq> []" "snd (Atoi s) = None" "0 < fst (Atoi s)"
  shows "\<exists>ds. ds \<noteq> [] \<and> set ds \<subseteq> set ''0123456789'' \<and>
          (s = ds \<or> s = CHR ''+'' # ds) \<and>
          0 < digits_value ds \<and> int (digits_value ds) < 2 ^ 63"
proof -
  from assms(2) [unfolded Atoi_ok_iff] obtain ds where ds: "ds \<noteq> []" "set ds \<subseteq> set ''0123456789''"
    and s: "(s = ds \<or> s = CHR ''+'' # ds) \<and> int (digits_value ds) < 2 ^ 63 \<or>
       s = CHR ''-'' # ds \<and> int (digits_value ds) \<le> 2 ^ 63" by blast
  from ds(2) have d: "list_all is_digit ds" by (simp only: all_digits_iff)
  from s show ?thesis
  proof
    assume a: "(s = ds \<or> s = CHR ''+'' # ds) \<and> int (digits_value ds) < 2 ^ 63"
    then have "Atoi s = (int (digits_value ds), None)"
      using Atoi_unsigned [OF ds(1) d] Atoi_plus [OF ds(1) d] by (elim conjE disjE) simp_all
    with assms(3) have "0 < digits_value ds" by simp
    with a ds show ?thesis by (intro exI [of _ ds]) simp
  next
    assume a: "s = CHR ''-'' # ds \<and> int (digits_value ds) \<le> 2 ^ 63"
    then have "Atoi s = (- int (digits_value ds), None)"
      using Atoi_minus [OF ds(1) d] by simp
    with assms(3) show ?thesis by simp
  qed
qed

lemma Atoi_positive_value:
  assumes "ds \<noteq> []" "set ds \<subseteq> set ''0123456789''" "s = ds \<or> s = CHR ''+'' # ds"
    "int (digits_value ds) < 2 ^ 63"
  shows "Atoi s = (int (digits_value ds), None)"
proof -
  from assms(2) have d: "list_all is_digit ds" by (simp only: all_digits_iff)
  from assms(3,4) show ?thesis
    using Atoi_unsigned [OF assms(1) d] Atoi_plus [OF assms(1) d] by (elim disjE) simp_all
qed


lemma parse_params_limit_default:
  assumes "\<not> (\<exists>ds. ds \<noteq> [] \<and> set ds \<subseteq> set ''0123456789'' \<and>
          (limitStr = ds \<or> limitStr = CHR ''+'' # ds) \<and>
          0 < digits_value ds \<and> int (digits_value ds) < 2 ^ 63)"
  shows "fst (parse_params limitStr dimensionsStr) = 500"
proof -
  have "limitStr = [] \<or> snd (Atoi limitStr) \<noteq> None \<or> fst (Atoi limitStr) \<le> 0"
  proof (rule ccontr)
    assume "\<not> ?thesis"
    then have "limitStr \<noteq> []" "snd (Atoi limitStr) = None" "0 < fst (Atoi limitStr)" by simp_all
    from Atoi_positive [OF this] assms show False by blast
  qed
  with parse_params_default [of limitStr dimensionsStr] show ?thesis by blast
qed

lemma parse_params_dimensions_default:
  assumes "\<not> (\<exists>ds. ds \<noteq> [] \<and> set ds \<subseteq> set ''0123456789'' \<and>
          (dimensionsStr = ds \<or> dimensionsStr = CHR ''+'' # ds) \<and>
          0 < digits_value ds \<and> int (digits_value ds) < 2 ^ 63)"
  shows "snd (parse_params limitStr dimensionsStr) = 100"
proof -
  have "dimensionsStr = [] \<or> snd (Atoi dimensionsStr) \<noteq> None \<or> fst (Atoi dimensionsStr) \<le> 0"
  proof (rule ccontr)
    assume "\<not> ?thesis"
    then have "dimensionsStr \<noteq> []" "snd (Atoi dimensionsStr) = None" "0 < fst (Atoi dimensionsStr)"
      by simp_all
    from Atoi_positive [OF this] assms show False by blast
  qed
  with parse_params_default [of limitStr dimensionsStr] show ?thesis by blast
qed

lemma parse_params_limit_value:
  assumes "ds \<noteq> [] \<and> set ds \<subseteq> set ''0123456789'' \<and>
          (limitStr = ds \<or> limitStr = CHR ''+'' # ds) \<and>
          0 < digits_value ds \<and> int (digits_value ds) < 2 ^ 63"
  shows "fst (parse_params limitStr dimensionsStr) = int (digits_value ds)"
proof -
  from assms have a: "ds \<noteq> []" "set ds \<subseteq> set ''0123456789''"
    "limitStr = ds \<or> limitStr = CHR ''+'' # ds" "int (digits_value ds) < 2 ^ 63"
    and pos: "0 < digits_value ds" by simp_all
  from a(1,3) have ne: "limitStr \<noteq> []" by auto
  from Atoi_positive_value [OF a] ne pos show ?thesis
    by (simp add: parse_params_def Let_def)
qed

lemma parse_params_dimensions_value:
  assumes "ds \<noteq> [] \<and> set ds \<subseteq> set ''0123456789'' \<and>
          (dimensionsStr = ds \<or> dimensionsStr = CHR ''+'' # ds) \<and>
          0 < digits_value ds \<and> int (digits_value ds) < 2 ^ 63"
  shows "snd (parse_params limitStr dimensionsStr) = int (digits_value ds)"
proof -
  from assms have a: "ds \<noteq> []" "set ds \<subseteq> set ''0123456789''"
    "dimensionsStr = ds \<or> dimensionsStr = CHR ''+'' # ds" "int (digits_value ds) < 2 ^ 63"
    and pos: "0 < digits_value ds" by simp_all
  from a(1,3) have ne: "dimensionsStr \<noteq> []" by auto
  from Atoi_positive_value [OF a] ne pos show ?thesis
    by (simp add: parse_params_def Let_def)
qed

text \<open>
  Claim C10. A query value is numeric exactly when it is an optional sign followed by one
  or more decimal digits whose value fits \<open>int\<close>: \<open>Atoi\<close> returns no error on exactly these
  strings, and the decimal text of every \<open>int\<close> parses to that \<open>int\<close>. For every pair of
  query strings, a limit value that is missing (the empty string), non-numeric or
  non-positive yields the limit 500, and such a dimensions value yields the dimensions
  100. In terms of the strings alone: the limit is 500, and the dimensions value 100,
  unless the string is one or more decimal digits, with or without a leading plus sign,
  whose value is positive and below \<open>2 ^ 63\<close>, and then the parsed value is that
  number. Parsing returns no error, and both parsed values are positive. A GET request
  is answered with status 200 and as many items as the parsed limit whenever \<open>make\<close> can
  allocate the two slices of the parsed sizes.
\<close>

theorem query_defaults:
  "(snd (Atoi s) = None \<longleftrightarrow>
      (\<exists>ds. ds \<noteq> [] \<and> set ds \<subseteq> set ''0123456789'' \<and>
         ((s = ds \<or> s = CHR ''+'' # ds) \<and> int (digits_value ds) < 2 ^ 63 \<or>
          s = CHR ''-'' # ds \<and> int (digits_value ds) \<le> 2 ^ 63))) \<and>
   (- (2 ^ 63) \<le> n \<and> n < 2 ^ 63 \<longrightarrow> Atoi (Itoa n) = (n, None)) \<and>
   ((limitStr = [] \<or> snd (Atoi limitStr) \<noteq> None \<or> fst (Atoi limitStr) \<le> 0) \<longrightarrow>
      fst (parse_params limitStr dimensionsStr) = 500) \<and>
   ((dimensionsStr = [] \<or> snd (Atoi dimensionsStr) \<noteq> None \<or> fst (Atoi dimensionsStr) \<le> 0) \<longrightarrow>
      snd (parse_params limitStr dimensionsStr) = 100) \<and>
   (\<not> (\<exists>ds. ds \<noteq> [] \<and> set ds \<subseteq> set ''0123456789'' \<and>
          (limitStr = ds \<or> limitStr = CHR ''+'' # ds) \<and>
          0 < digits_value ds \<and> int (digits_value ds) < 2 ^ 63) \<longrightarrow>
      fst (parse_params limitStr dimensionsStr) = 500) \<and>
   (\<not> (\<exists>ds. ds \<noteq> [] \<and> set ds \<subseteq> set ''0123456789'' \<and>
          (dimensionsStr = ds \<or> dimensionsStr = CHR ''+'' # ds) \<and>
          0 < digits_value ds \<and> int (digits_value ds) < 2 ^ 63) \<longrightarrow>
      snd (parse_params limitStr dimensionsStr) = 100) \<and>
   (ds \<noteq> [] \<and> set ds \<subseteq> set ''0123456789'' \<and>
          (limitStr = ds \<or> limitStr = CHR ''+'' # ds) \<and>
          0 < digits_value ds \<and> int (digits_value ds) < 2 ^ 63 \<longrightarrow>
      fst (parse_params limitStr dimensionsStr) = int (digits_value ds)) \<and>
   (ds \<noteq> [] \<and> set ds \<subseteq> set ''0123456789'' \<and>
          (dimensionsStr = ds \<or> dimensionsStr = CHR ''+'' # ds) \<and>
          0 < digits_value ds \<and> int (digits_value ds) < 2 ^ 63 \<longrightarrow>
      snd (parse_params limitStr dimensionsStr) = int (digits_value ds)) \<and>
   0 < fst (parse_params limitStr dimensionsStr) \<and>
   0 < snd (parse_params limitStr dimensionsStr) \<and>
   (Method req = ''GET'' \<and>
    makeslice m sizeof_float64
      (snd (parse_params (query_get (Query req) ''limit'') (query_get (Query req) ''dimensions'')))
      (snd (parse_params (query_get (Query req) ''limit'') (query_get (Query req) ''dimensions'')))
      = Inr () \<and>
    makeslice m sizeof_VectorItem 0
      (fst (parse_params (query_get (Query req) ''limit'') (query_get (Query req) ''dimensions'')))
      = Inr () \<longrightarrow>
      (\<exists>data r'.
         handleVectorData m req clock r =
           Inr (\<lparr> status = 200,
                   headers = cors_headers @ [(''Content-Type'', ''application/json'')],
                   content = JsonBody data (int (length data)) \<rparr>, r') \<and>
         int (length data) =
           fst (parse_params (query_get (Query req) ''limit'') (query_get (Query req) ''dimensions''))))"
proof (intro conjI)
  show "snd (Atoi s) = None \<longleftrightarrow>
      (\<exists>ds. ds \<noteq> [] \<and> set ds \<subseteq> set ''0123456789'' \<and>
         ((s = ds \<or> s = CHR ''+'' # ds) \<and> int (digits_value ds) < 2 ^ 63 \<or>
          s = CHR ''-'' # ds \<and> int (digits_value ds) \<le> 2 ^ 63))"
    by (rule Atoi_ok_iff)
next
  show "- (2 ^ 63) \<le> n \<and> n < 2 ^ 63 \<longrightarrow> Atoi (Itoa n) = (n, None)"
    using Atoi_Itoa [of n] by blast
next
  show "(limitStr = [] \<or> snd (Atoi limitStr) \<noteq> None \<or> fst (Atoi limitStr) \<le> 0) \<longrightarrow>
      fst (parse_params limitStr dimensionsStr) = 500"
    using parse_params_default [of limitStr dimensionsStr] by blast
next
  show "(dimensionsStr = [] \<or> snd (Atoi dimensionsStr) \<noteq> None \<or> fst (Atoi dimensionsStr) \<le> 0) \<longrightarrow>
      snd (parse_params limitStr dimensionsStr) = 100"
    using parse_params_default [of limitStr dimensionsStr] by blast
next
  show "\<not> (\<exists>ds. ds \<noteq> [] \<and> set ds \<subseteq> set ''0123456789'' \<and>
          (limitStr = ds \<or> limitStr = CHR ''+'' # ds) \<and>
          0 < digits_value ds \<and> int (digits_value ds) < 2 ^ 63) \<longrightarrow>
      fst (parse_params limitStr dimensionsStr) = 500"
    by (rule impI) (rule parse_params_limit_default)
next
  show "\<not> (\<exists>ds. ds \<noteq> [] \<and> set ds \<subseteq> set ''0123456789'' \<and>
          (dimensionsStr = ds \<or> dimensionsStr = CHR ''+'' # ds) \<and>
          0 < digits_value ds \<and> int (digits_value ds) < 2 ^ 63) \<longrightarrow>
      snd (parse_params limitStr dimensionsStr) = 100"
    by (rule impI) (rule parse_params_dimensions_default)
next
  show "ds \<noteq> [] \<and> set ds \<subseteq> set ''0123456789'' \<and>
          (limitStr = ds \<or> limitStr = CHR ''+'' # ds) \<and>
          0 < digits_value ds \<and> int (digits_value ds) < 2 ^ 63 \<longrightarrow>
      fst (parse_params limitStr dimensionsStr) = int (digits_value ds)"
    by (rule impI) (rule parse_params_limit_value)
next
  show "ds \<noteq> [] \<and> set ds \<subseteq> set ''0123456789'' \<and>
          (dimensionsStr = ds \<or> dimensionsStr = CHR ''+'' # ds) \<and>
          0 < digits_value ds \<and> int (digits_value ds) < 2 ^ 63 \<longrightarrow>
      snd (parse_params limitStr dimensionsStr) = int (digits_value ds)"
    by (rule impI) (rule parse_params_dimensions_value)
next
  show "0 < fst (parse_params limitStr dimensionsStr)"
    using parse_params_positive [of limitStr dimensionsStr] by simp
next
  show "0 < snd (parse_params limitStr dimensionsStr)"
    using parse_params_positive [of limitStr dimensionsStr] by simp
next
  let ?p = "parse_params (query_get (Query req) ''limit'') (query_get (Query req) ''dimensions'')"
  show "Method req = ''GET'' \<and>
    makeslice m sizeof_float64 (snd ?p) (snd ?p) = Inr () \<and>
    makeslice m sizeof_VectorItem 0 (fst ?p) = Inr () \<longrightarrow>
      (\<exists>data r'.
         handleVectorData m req clock r =
           Inr (\<lparr> status = 200,
                   headers = cors_headers @ [(''Content-Type'', ''application/json'')],
                   content = JsonBody data (int (length data)) \<rparr>, r') \<and>
         int (length data) = fst ?p)"
  proof
    assume h: "Method req = ''GET'' \<and>
      makeslice m sizeof_float64 (snd ?p) (snd ?p) = Inr () \<and>
      makeslice m sizeof_VectorItem 0 (fst ?p) = Inr ()"
    have p: "?p = (fst ?p, snd ?p)" by simp
    from h have g: "Method req = ''GET''"
      and ms: "makeslice m sizeof_float64 (snd ?p) (snd ?p) = Inr ()"
        "makeslice m sizeof_VectorItem 0 (fst ?p) = Inr ()" by blast+
    from handleVectorData_GET [OF g p ms, of clock r] show "\<exists>data r'.
         handleVectorData m req clock r =
           Inr (\<lparr> status = 200,
                   headers = cors_headers @ [(''Content-Type'', ''application/json'')],
                   content = JsonBody data (int (length data)) \<rparr>, r') \<and>
         int (length data) = fst ?p"
      by blast
  qed
qed

theorem query_defaults_witness:
  "parse_params ''abc'' ''-5'' = (500, 100) \<and>
   parse_params [] ''0'' = (500, 100) \<and>
   parse_params ''99999999999999999999'' [] = (500, 100) \<and>
   parse_params ''+25'' ''25'' = (25, 25) \<and>
   Atoi (Itoa 25) = (25, None) \<and>
   (\<exists>data r'.
      handleVectorData \<lparr>maxAlloc = 2 ^ 48, provides = (\<ge>) (2 ^ 34)\<rparr>
        \<lparr>Method = ''GET'', Query = [(''limit'', ''abc''), (''dimensions'', ''-5'')]\<rparr> id
        \<lparr>draws = id, consumed = 0\<rparr> =
          Inr (\<lparr> status = 200,
                  headers = cors_headers @ [(''Content-Type'', ''application/json'')],
                  content = JsonBody data 500 \<rparr>, r') \<and>
      length data = 500)"
proof -
  let ?m = "\<lparr>maxAlloc = 2 ^ 48, provides = (\<ge>) (2 ^ 34)\<rparr>"
  let ?req = "\<lparr>Method = ''GET'', Query = [(''limit'', ''abc''), (''dimensions'', ''-5'')]\<rparr>"
  let ?r = "\<lparr>draws = id, consumed = 0\<rparr>"
  note q = query_defaults [where m = ?m and req = ?req and clock = id and r = ?r and n = 25
      and ds = "''25''"]
  from q [where limitStr = "''abc''" and dimensionsStr = "''-5''"] Atoi_examples
  have a: "fst (parse_params ''abc'' ''-5'') = 500" "snd (parse_params ''abc'' ''-5'') = 100"
    by simp_all
  from q [where limitStr = "[]" and dimensionsStr = "''0''"] Atoi_examples
  have b: "fst (parse_params [] ''0'') = 500" "snd (parse_params [] ''0'') = 100"
    by simp_all
  from q [where limitStr = "''99999999999999999999''" and dimensionsStr = "[]"] Atoi_examples
  have c: "fst (parse_params ''99999999999999999999'' []) = 500"
    "snd (parse_params ''99999999999999999999'' []) = 100"
    by simp_all
  have v: "digits_value ''25'' = 25" by (simp add: digits_value_def)
  from q [where limitStr = "''+25''" and dimensionsStr = "''25''"] v
  have e: "fst (parse_params ''+25'' ''25'') = 25" "snd (parse_params ''+25'' ''25'') = 25"
    by simp_all
  from q [where limitStr = "[]" and dimensionsStr = "[]"]
  have d: "Atoi (Itoa 25) = (25, None)" by simp
  from a have p: "parse_params ''abc'' ''-5'' = (500, 100)" by (simp add: prod_eq_iff)
  have qg: "query_get (Query ?req) ''limit'' = ''abc''" "query_get (Query ?req) ''dimensions'' = ''-5''"
    by (simp_all add: query_get_def)
  have ms: "makeslice ?m sizeof_float64 100 100 = Inr ()" "makeslice ?m sizeof_VectorItem 0 500 = Inr ()"
    by (simp_all add: makeslice_def out_of_range_def sizeof_float64_def sizeof_VectorItem_def)
  have g: "Method ?req = ''GET''" by simp
  from q [where limitStr = "[]" and dimensionsStr = "[]"] g ms
  obtain data r' where
    H: "handleVectorData ?m ?req id ?r =
          Inr (\<lparr> status = 200,
                  headers = cors_headers @ [(''Content-Type'', ''application/json'')],
                  content = JsonBody data (int (length data)) \<rparr>, r')"
    and len: "int (length data) = 500"
    unfolding qg p fst_conv snd_conv by blast
  from len have len': "length data = 500" by simp
  from H len have H': "handleVectorData ?m ?req id ?r =
          Inr (\<lparr> status = 200,
                  headers = cors_headers @ [(''Content-Type'', ''application/json'')],
                  content = JsonBody data 500 \<rparr>, r')" by simp
  from a b c d e H' len' show ?thesis
    by (intro conjI exI [of _ data] exI [of _ r']) (simp_all add: prod_eq_iff)
qed

end
